theory Spec2Isabelle
  imports Main "HOL-Library.AList"
begin

section \<open>Data model\<close>

text \<open>
  Go strings are byte strings: \<open>string\<close> (a list of 8-bit characters) holds the UTF-8
  bytes. \<open>time.Time\<close> is an instant counted from the zero time, so \<open>IsZero\<close> is \<open>t = 0\<close>.
  Go's \<open>int\<close> is 64 bits wide; the server only compares and copies \<open>MaxSteps\<close> and adds
  one to a slice index, so \<open>int\<close> is used with no wrap-around.
\<close>

type_synonym instant = nat

text \<open>
  A decoded JSON value, as \<open>any\<close> holds it after \<open>json.Unmarshal\<close>, and as
  \<open>json.Marshal\<close> writes it; \<open>JNull\<close> is the nil interface. \<open>JTime\<close> stands for the
  RFC 3339 text of an instant.
\<close>

datatype json =
    JNull
  | JBool bool
  | JInt int
  | JString string
  | JTime instant
  | JArray "json list"
  | JObject "(string \<times> json) list"

text \<open>\<open>TaskRequestSafe\<close> is the stored request; \<open>TaskRequest\<close> has the same fields and
  the \<open>APIKey\<close> of the request body.\<close>

record TaskRequestSafe =
  Goal :: string
  App :: string
  Provider :: string
  Model :: string
  Reasoning :: bool
  Vision :: bool
  MaxSteps :: int

record TaskRequest = TaskRequestSafe +
  APIKey :: string

record Task =
  ID :: string
  Request :: TaskRequestSafe
  Status :: string
  Success :: bool
  Result :: string
  Error :: string
  Logs :: string
  Steps :: json
  CreatedAt :: instant
  StartedAt :: instant
  FinishedAt :: instant
  apiKey :: string

text \<open>The result envelope that \<open>process\<close> decodes from the worker's standard output.\<close>

record envelope =
  r_OK :: bool
  r_Success :: bool
  r_Reason :: string
  r_Error :: string
  r_Steps :: json

text \<open>An \<open>exec.Cmd\<close>: the argument vector, the bytes given as standard input (the
  marshalled job descriptor) and the field \<open>Process\<close>, which is nil (\<open>None\<close>) until
  \<open>Start\<close> has created the worker process and holds its process ID from then on.\<close>

record cmd =
  argv :: "string list"
  stdin :: json
  Process :: "nat option"

text \<open>A run-time panic: a method called through a nil pointer.\<close>

datatype panic = NilDereference

section \<open>Request validation (validateRequest)\<close>

subsection \<open>strings.TrimSpace\<close>

text \<open>
  \<open>strings.TrimSpace\<close> removes leading and trailing runes for which \<open>unicode.IsSpace\<close>
  holds: tab, line feed, vertical tab, form feed, carriage return, space, U+0085, U+00A0,
  U+1680, U+2000 to U+200A, U+2028, U+2029, U+202F, U+205F and U+3000. \<open>space_runes\<close>
  lists their UTF-8 encodings. No encoding is a prefix of another, each starts with a
  byte that begins a rune and continues with continuation bytes only, so a string starts
  (ends) with a white-space rune exactly when one of the encodings is a prefix (suffix).
\<close>

definition space_runes :: "string list" where
  "space_runes =
    [[CHR 0x09], [CHR 0x0A], [CHR 0x0B], [CHR 0x0C], [CHR 0x0D], [CHR 0x20],
     [CHR 0xC2, CHR 0x85], [CHR 0xC2, CHR 0xA0],
     [CHR 0xE1, CHR 0x9A, CHR 0x80],
     [CHR 0xE2, CHR 0x80, CHR 0x80], [CHR 0xE2, CHR 0x80, CHR 0x81],
     [CHR 0xE2, CHR 0x80, CHR 0x82], [CHR 0xE2, CHR 0x80, CHR 0x83],
     [CHR 0xE2, CHR 0x80, CHR 0x84], [CHR 0xE2, CHR 0x80, CHR 0x85],
     [CHR 0xE2, CHR 0x80, CHR 0x86], [CHR 0xE2, CHR 0x80, CHR 0x87],
     [CHR 0xE2, CHR 0x80, CHR 0x88], [CHR 0xE2, CHR 0x80, CHR 0x89],
     [CHR 0xE2, CHR 0x80, CHR 0x8A],
     [CHR 0xE2, CHR 0x80, CHR 0xA8], [CHR 0xE2, CHR 0x80, CHR 0xA9],
     [CHR 0xE2, CHR 0x80, CHR 0xAF], [CHR 0xE2, CHR 0x81, CHR 0x9F],
     [CHR 0xE3, CHR 0x80, CHR 0x80]]"

text \<open>The width in bytes of the white-space rune the string starts with; 0 if it starts
  with none. The first argument is the table of encodings.\<close>

fun space_width :: "string list \<Rightarrow> string \<Rightarrow> nat" where
  "space_width [] s = 0"
| "space_width (r # rs) s =
     (if r \<noteq> [] \<and> take (length r) s = r then length r else space_width rs s)"

function trim_left :: "string list \<Rightarrow> string \<Rightarrow> string" where
  "trim_left rs s =
     (if space_width rs s = 0 then s else trim_left rs (drop (space_width rs s) s))"
  by pat_completeness auto

lemma space_width_nonempty: "0 < space_width rs s \<Longrightarrow> s \<noteq> []"
  by (induction rs) (auto split: if_splits)

termination trim_left
proof (relation "measure (\<lambda>(rs, s). length s)")
  show "wf (measure (\<lambda>(rs :: string list, s :: string). length s))"
    by simp
next
  fix rs :: "string list" and s :: string
  assume "space_width rs s \<noteq> 0"
  then have "0 < space_width rs s" and "0 < length s"
    using space_width_nonempty [of rs s] by auto
  then show "((rs, drop (space_width rs s) s), (rs, s)) \<in> measure (\<lambda>(rs, s). length s)"
    by simp
qed

declare trim_left.simps [simp del]

definition TrimSpace :: "string \<Rightarrow> string" where
  "TrimSpace s = rev (trim_left (map rev space_runes) (rev (trim_left space_runes s)))"

subsection \<open>The package-name pattern\<close>

text \<open>
  \<open>regexp.MatchString\<close> with the pattern
  \<^verbatim>\<open>^[a-zA-Z][a-zA-Z0-9_]*(\.[a-zA-Z][a-zA-Z0-9_]*)+$\<close>.
  In Go's syntax, with no flags, \<^verbatim>\<open>^\<close> and \<^verbatim>\<open>$\<close> match only at the two ends of the text,
  so the whole string has to match. The matcher is the pattern's automaton: \<open>P0\<close> expects
  the first letter, \<open>P1\<close> is inside the first segment, \<open>P2\<close> has read a dot and expects a
  letter, \<open>P3\<close> is inside a later segment and is the only accepting state.
\<close>

definition is_letter :: "char \<Rightarrow> bool" where
  "is_letter c = (let n = (of_char c :: nat) in (97 \<le> n \<and> n \<le> 122) \<or> (65 \<le> n \<and> n \<le> 90))"

definition is_word :: "char \<Rightarrow> bool" where
  "is_word c = (let n = (of_char c :: nat) in is_letter c \<or> (48 \<le> n \<and> n \<le> 57) \<or> n = 95)"

datatype pstate = P0 | P1 | P2 | P3

fun pkg_run :: "pstate \<Rightarrow> string \<Rightarrow> bool" where
  "pkg_run q [] = (q = P3)"
| "pkg_run P0 (c # cs) = (if is_letter c then pkg_run P1 cs else False)"
| "pkg_run P1 (c # cs) =
     (if is_word c then pkg_run P1 cs else if c = CHR ''.'' then pkg_run P2 cs else False)"
| "pkg_run P2 (c # cs) = (if is_letter c then pkg_run P3 cs else False)"
| "pkg_run P3 (c # cs) =
     (if is_word c then pkg_run P3 cs else if c = CHR ''.'' then pkg_run P2 cs else False)"

definition matchPackage :: "string \<Rightarrow> bool" where
  "matchPackage s = pkg_run P0 s"

subsection \<open>validateRequest\<close>

definition validProviders :: "string \<Rightarrow> bool" where
  "validProviders p =
     (p \<in> set [''Google'', ''GoogleGenAI'', ''Anthropic'', ''OpenAI'', ''DeepSeek'', ''Ollama''])"

text \<open>The \<open>switch\<close> that fills an empty model; it has no default case.\<close>

definition modelDefault :: "string \<Rightarrow> string" where
  "modelDefault p =
     (if p = ''Google'' \<or> p = ''GoogleGenAI'' then ''gemini-2.0-flash''
      else if p = ''Anthropic'' then ''claude-sonnet-4-20250514''
      else if p = ''OpenAI'' then ''gpt-4o''
      else if p = ''DeepSeek'' then ''deepseek-chat''
      else if p = ''Ollama'' then ''llama3.2''
      else [])"

text \<open>\<open>validateRequest\<close> rewrites the request it is given and returns an error or nil:
  \<open>Inl\<close> carries the error text, \<open>Inr\<close> the rewritten request.\<close>

definition validateRequest :: "TaskRequest \<Rightarrow> string \<Rightarrow> string + TaskRequest" where
  "validateRequest req key =
     (let r1 = req\<lparr>Goal := TrimSpace (Goal req)\<rparr> in
      if Goal r1 = [] then Inl ''goal is required''
      else
        let r2 = (if Provider r1 = [] then r1\<lparr>Provider := ''Google''\<rparr> else r1) in
        if \<not> validProviders (Provider r2)
        then Inl (''invalid provider: '' @ Provider r2 @
                  '' (valid: Google, Anthropic, OpenAI, DeepSeek, Ollama)'')
        else
          let r3 = (if Model r2 = [] then r2\<lparr>Model := modelDefault (Provider r2)\<rparr> else r2);
              r4 = (if MaxSteps r3 \<le> 0 then r3\<lparr>MaxSteps := 30\<rparr>
                    else if MaxSteps r3 > 100 then r3\<lparr>MaxSteps := 100\<rparr> else r3)
          in
            if key = [] \<and> Provider r4 \<noteq> ''Ollama''
            then Inl ''API key required (use X-API-Key header)''
            else if App r4 \<noteq> [] \<and> \<not> matchPackage (App r4)
            then Inl (''invalid app package name: '' @ App r4)
            else Inr r4)"

section \<open>The queue\<close>

text \<open>
  \<open>Queue\<close> has the fields of the Go struct, the mutex apart. \<open>tasks\<close> maps an ID to a
  \<open>*Task\<close>, an address in \<open>heap\<close>; it is an association list with one entry per key,
  as the Go map has. \<open>pending\<close> is the contents of the buffered channel (capacity 100),
  oldest first. The zero value of the slice \<open>pendingOrder\<close> and of the string \<open>current\<close>
  is the empty list.

  \<open>world\<close> adds what lies outside the struct: \<open>heap\<close>, the \<open>Task\<close> records allocated so
  far (a pointer is an index, and \<open>Clear\<close> drops the map, not the records, so the sequencer
  may go on writing to a record the store no longer holds); \<open>senders\<close>, the IDs of the
  \<open>Submit\<close> calls that have left the critical section and not yet sent on the channel;
  \<open>sequencer\<close>, the place in \<open>Run\<close>/\<open>process\<close> the single consumer is at, with its local
  variables \<open>id\<close>, \<open>task\<close> and \<open>cmd\<close>; \<open>killed\<close>, the commands whose process
  \<open>Process.Kill\<close> has signalled; \<open>logged\<close>, the messages given to \<open>log.Printf\<close>.

  The sequencer is \<open>Idle\<close> in the loop of \<open>Run\<close>, \<open>Dequeued\<close> when it has received an ID,
  \<open>Started\<close> after the first critical section of \<open>process\<close>, \<open>Attached\<close> after the second
  (\<open>q.currentCmd = cmd\<close>), while \<open>cmd.Run()\<close> has not yet created the worker process, and
  \<open>Waiting\<close> once \<open>cmd.Run()\<close> has created it and waits for its exit. \<open>q.currentCmd\<close> and
  the local variable point to one command: a write of its \<open>Process\<close> field is made in
  both.
\<close>

datatype pc =
    Idle
  | Dequeued string
  | Started string nat cmd
  | Attached string nat cmd
  | Waiting string nat cmd

record Queue =
  tasks :: "(string \<times> nat) list"
  pending :: "string list"
  pendingOrder :: "string list"
  current :: string
  currentCmd :: "cmd option"
  workerPath :: string

record world = Queue +
  heap :: "Task list"
  senders :: "string list"
  sequencer :: pc
  killed :: "cmd list"
  logged :: "string list"

definition NewQueue :: "string \<Rightarrow> world" where
  "NewQueue path =
     \<lparr>tasks = [], pending = [], pendingOrder = [], current = [], currentCmd = None,
      workerPath = path, heap = [], senders = [], sequencer = Idle, killed = [], logged = []\<rparr>"

text \<open>\<open>q.tasks[id]\<close> with the record it points to; \<open>None\<close> is the nil pointer.\<close>

definition task_at :: "world \<Rightarrow> string \<Rightarrow> (nat \<times> Task) option" where
  "task_at w tid =
     (case map_of (tasks w) tid of
        None \<Rightarrow> None
      | Some p \<Rightarrow> if p < length (heap w) then Some (p, heap w ! p) else None)"

subsection \<open>Submit\<close>

text \<open>
  The critical section of \<open>Queue.Submit\<close>, with the identifier \<open>randomID\<close> returned and
  the reading of the clock as arguments. It returns the new pointer. The send
  \<open>q.pending <- id\<close> comes after the unlock and is a step of its own (\<open>Send\<close>): it waits
  while the channel holds 100 IDs.
\<close>

definition Submit :: "TaskRequest \<Rightarrow> string \<Rightarrow> string \<Rightarrow> instant \<Rightarrow> world \<Rightarrow> nat \<times> world" where
  "Submit req key tid now w =
     (let provider = (if Provider req = [] then ''Google'' else Provider req);
          model = (if Model req = [] then ''gemini-2.0-flash'' else Model req);
          maxSteps = (if MaxSteps req = 0 then 30 else MaxSteps req);
          task = \<lparr>ID = tid,
                  Request = \<lparr>Goal = Goal req, App = App req, Provider = provider, Model = model,
                             Reasoning = Reasoning req, Vision = Vision req, MaxSteps = maxSteps\<rparr>,
                  Status = ''queued'', Success = False, Result = [], Error = [], Logs = [],
                  Steps = JNull, CreatedAt = now, StartedAt = 0, FinishedAt = 0, apiKey = key\<rparr>;
          p = length (heap w)
      in (p, w\<lparr>heap := heap w @ [task], tasks := AList.update tid p (tasks w),
               pendingOrder := pendingOrder w @ [tid], senders := senders w @ [tid]\<rparr>))"

definition Send :: "string \<Rightarrow> world \<Rightarrow> world" where
  "Send tid w =
     (if tid \<in> set (senders w) \<and> length (pending w) < 100
      then w\<lparr>pending := pending w @ [tid], senders := remove1 tid (senders w)\<rparr>
      else w)"

text \<open>
  \<open>handleRun\<close> from the decoded body on: the credential is the \<open>X-API-Key\<close> header or,
  when that is empty, the body's \<open>api_key\<close>; the request is validated and, if valid,
  submitted.
\<close>

definition credential :: "string \<Rightarrow> TaskRequest \<Rightarrow> string" where
  "credential header req = (if header = [] then APIKey req else header)"

definition handleRun ::
  "string \<Rightarrow> TaskRequest \<Rightarrow> string \<Rightarrow> instant \<Rightarrow> world \<Rightarrow> string + (nat \<times> world)" where
  "handleRun header req tid now w =
     (let key = credential header req;
          req1 = req\<lparr>APIKey := []\<rparr>
      in case validateRequest req1 key of
           Inl e \<Rightarrow> Inl e
         | Inr req2 \<Rightarrow> Inr (Submit req2 key tid now w))"

subsection \<open>Get, All, Size, Current, Position\<close>

text \<open>\<open>Get\<close> and \<open>All\<close> return pointers; here they return the records read through
  them.\<close>

definition Get :: "world \<Rightarrow> string \<Rightarrow> Task option" where
  "Get w tid = map_option snd (task_at w tid)"

definition All :: "world \<Rightarrow> (string \<times> Task) list" where
  "All w = List.map_filter (\<lambda>(tid, p). map_option (\<lambda>pt. (tid, snd pt)) (task_at w tid)) (tasks w)"

definition Size :: "world \<Rightarrow> nat" where
  "Size w = length (pending w)"

definition Current :: "world \<Rightarrow> string" where
  "Current w = current w"

text \<open>The loop \<open>for i, taskID := range q.pendingOrder\<close> that stops at the first match.\<close>

fun index_of :: "string list \<Rightarrow> string \<Rightarrow> nat option" where
  "index_of [] tid = None"
| "index_of (t # ts) tid = (if t = tid then Some 0 else map_option Suc (index_of ts tid))"

definition Position :: "world \<Rightarrow> string \<Rightarrow> int" where
  "Position w tid =
     (if current w = tid then 0
      else case index_of (pendingOrder w) tid of
             Some i \<Rightarrow> int i + 1
           | None \<Rightarrow> - 1)"

definition removePendingOrder :: "string \<Rightarrow> world \<Rightarrow> world" where
  "removePendingOrder tid w =
     (case index_of (pendingOrder w) tid of
        None \<Rightarrow> w
      | Some i \<Rightarrow> w\<lparr>pendingOrder := take i (pendingOrder w) @ drop (i + 1) (pendingOrder w)\<rparr>)"

subsection \<open>Cancel and Clear\<close>

text \<open>
  \<open>q.currentCmd.Process.Kill()\<close>. While \<open>Process\<close> is nil the call panics. Otherwise it
  is a call into the operating system: the command is recorded in \<open>killed\<close>, and the
  error the call returns (or nil, \<open>None\<close>) is an argument of the caller. An error is only
  logged, after the given prefix.
\<close>

definition Kill :: "cmd \<Rightarrow> string option \<Rightarrow> string \<Rightarrow> world \<Rightarrow> panic + world" where
  "Kill c kerr prefix w =
     (case Process c of
        None \<Rightarrow> Inl NilDereference
      | Some pid \<Rightarrow>
          Inr (w\<lparr>killed := killed w @ [c],
                 logged := (case kerr of None \<Rightarrow> logged w
                            | Some e \<Rightarrow> logged w @ [prefix @ e])\<rparr>))"

text \<open>
  \<open>Cancel\<close> and \<open>Clear\<close> return \<open>Inl\<close> when they panic. The panic comes before any
  write, and the deferred \<open>Unlock\<close> releases the mutex.
\<close>

definition Cancel ::
  "string \<Rightarrow> instant \<Rightarrow> string option \<Rightarrow> world \<Rightarrow> panic + (bool \<times> world)" where
  "Cancel tid now kerr w =
     (case task_at w tid of
        None \<Rightarrow> Inr (False, w)
      | Some (p, task) \<Rightarrow>
          (case (case currentCmd w of
                   None \<Rightarrow> Inr w
                 | Some c \<Rightarrow>
                     if Status task = ''running'' \<and> current w = tid
                     then Kill c kerr (''['' @ tid @ ''] Failed to kill process: '') w
                     else Inr w) of
             Inl e \<Rightarrow> Inl e
           | Inr w1 \<Rightarrow>
               if Status task = ''queued'' \<or> Status task = ''running''
               then Inr (True, removePendingOrder tid
                       (w1\<lparr>heap := (heap w1)[p := task\<lparr>Status := ''cancelled'',
                                                         FinishedAt := now\<rparr>]\<rparr>))
               else Inr (False, w1)))"

text \<open>\<open>Clear\<close> holds the lock while it empties the channel; the drain is taken as one step.\<close>

definition Clear :: "string option \<Rightarrow> world \<Rightarrow> panic + (nat \<times> world)" where
  "Clear kerr w =
     (case (case currentCmd w of
              None \<Rightarrow> Inr w
            | Some c \<Rightarrow> Kill c kerr ''Failed to kill current process: '' w) of
        Inl e \<Rightarrow> Inl e
      | Inr w1 \<Rightarrow>
          Inr (length (tasks w1),
               w1\<lparr>tasks := [], current := [], pendingOrder := [], pending := []\<rparr>))"

subsection \<open>The sequencer: Run and process\<close>

definition truncate :: "string \<Rightarrow> nat \<Rightarrow> string" where
  "truncate s n = (if length s \<le> n then s else take n s @ ''...'')"

text \<open>The job descriptor: \<open>json.Marshal\<close> of a map writes the keys in sorted order.\<close>

definition worker_input :: "TaskRequestSafe \<Rightarrow> string \<Rightarrow> json" where
  "worker_input r key =
     JObject [(''api_key'', JString key), (''app'', JString (App r)), (''goal'', JString (Goal r)),
              (''max_steps'', JInt (MaxSteps r)), (''model'', JString (Model r)),
              (''provider'', JString (Provider r)), (''reasoning'', JBool (Reasoning r)),
              (''vision'', JBool (Vision r))]"

text \<open>
  \<open>process\<close> runs in three critical sections, with the lock released in between.
  \<open>process_begin\<close>: the first critical section, the log line and the construction of
  the command (the fields of \<open>Request\<close> it reads are never written after \<open>Submit\<close>).
\<close>

definition process_begin :: "string \<Rightarrow> instant \<Rightarrow> world \<Rightarrow> world" where
  "process_begin tid now w =
     (case task_at w tid of
        None \<Rightarrow> w\<lparr>sequencer := Idle\<rparr>
      | Some (p, task) \<Rightarrow>
          let task1 = task\<lparr>Status := ''running'', StartedAt := now\<rparr>;
              w1 = removePendingOrder tid (w\<lparr>heap := (heap w)[p := task1], current := tid\<rparr>);
              key = apiKey task1;
              w2 = w1\<lparr>logged := logged w1 @
                     [''['' @ tid @ ''] Starting task: '' @ truncate (Goal (Request task1)) 50]\<rparr>;
              c = \<lparr>argv = [''python3'', workerPath w2],
                   stdin = worker_input (Request task1) key, Process = None\<rparr>
          in w2\<lparr>sequencer := Started tid p c\<rparr>)"

text \<open>\<open>process_attach\<close>: the second critical section, \<open>q.currentCmd = cmd\<close>. The worker
  process does not exist yet.\<close>

definition process_attach :: "string \<Rightarrow> nat \<Rightarrow> cmd \<Rightarrow> world \<Rightarrow> world" where
  "process_attach tid p c w = w\<lparr>currentCmd := Some c, sequencer := Attached tid p c\<rparr>"

text \<open>
  \<open>process_spawn\<close>: inside \<open>cmd.Run()\<close>, outside the lock, \<open>Start\<close> creates the worker
  process and writes \<open>cmd.Process\<close>; \<open>pid\<close> is the process ID the operating system gave.
  When \<open>Start\<close> fails instead, \<open>Process\<close> stays nil and \<open>cmd.Run()\<close> returns the error
  with nothing captured: the run goes from \<open>Attached\<close> to \<open>process_end\<close>.
\<close>

definition process_spawn :: "string \<Rightarrow> nat \<Rightarrow> cmd \<Rightarrow> nat \<Rightarrow> world \<Rightarrow> world" where
  "process_spawn tid p c pid w =
     w\<lparr>currentCmd := map_option (\<lambda>c'. c'\<lparr>Process := Some pid\<rparr>) (currentCmd w),
       sequencer := Waiting tid p (c\<lparr>Process := Some pid\<rparr>)\<rparr>"

text \<open>
  \<open>process_end\<close>: \<open>cmd.Run()\<close> has returned \<open>err\<close> (\<open>None\<close> is nil), with \<open>output\<close> on
  standard output and \<open>errout\<close> on standard error; the third critical section follows.
  \<open>json.Unmarshal\<close> belongs to the standard library: what it makes of \<open>output\<close> is the
  argument \<open>parsed\<close>, \<open>None\<close> when it returns an error. \<open>p\<close> is the pointer \<open>task\<close> that
  \<open>process\<close> has held since its first critical section.
\<close>

definition process_end ::
  "string \<Rightarrow> nat \<Rightarrow> string option \<Rightarrow> string \<Rightarrow> string \<Rightarrow> envelope option \<Rightarrow> instant \<Rightarrow> world \<Rightarrow> world" where
  "process_end tid p err output errout parsed now w =
     (let task1 = (heap w ! p)\<lparr>FinishedAt := now, Logs := errout\<rparr>;
          w1 = w\<lparr>currentCmd := None, current := [], sequencer := Idle\<rparr>
      in if Status task1 = ''cancelled''
         then w1\<lparr>heap := (heap w)[p := task1],
                 logged := logged w @ [''['' @ tid @ ''] Cancelled'']\<rparr>
         else
           case err of
             Some e \<Rightarrow>
               let task2 = task1\<lparr>Status := ''failed'', Error := (if errout \<noteq> [] then errout else e)\<rparr>
               in w1\<lparr>heap := (heap w)[p := task2],
                      logged := logged w @ [''['' @ tid @ ''] Failed: '' @ Error task2]\<rparr>
           | None \<Rightarrow>
               let task2 =
                     (case parsed of
                        None \<Rightarrow> task1\<lparr>Status := ''failed'', Error := ''invalid worker output: '' @ output\<rparr>
                      | Some r \<Rightarrow>
                          if \<not> r_OK r then task1\<lparr>Status := ''failed'', Error := r_Error r\<rparr>
                          else task1\<lparr>Status := ''completed'', Success := r_Success r,
                                     Result := r_Reason r, Steps := r_Steps r\<rparr>)
               in w1\<lparr>heap := (heap w)[p := task2],
                      logged := logged w @
                        [''['' @ tid @ ''] Completed: success='' @
                         (if Success task2 then ''true'' else ''false'')]\<rparr>)"

subsection \<open>Interleavings\<close>

text \<open>
  The mutex makes each critical section one step, and a channel operation is one step.
  An event is one such step of some goroutine, with what it reads from outside (the
  request, the random ID, the clock, the result of a kill, the process ID and the
  outcome of the worker). An event that cannot happen in a state (a send on a full
  channel, a step of the sequencer that is not its next one) leaves the state as it is.
  So does a \<open>Cancel\<close> or a \<open>Clear\<close> that panics: it has written nothing, and what becomes
  of the panic is its caller's matter (\<open>net/http\<close> recovers the panic of a handler; if the
  program ends instead, nothing follows).
\<close>

datatype event =
    EvSubmit TaskRequest string string instant
  | EvSend string
  | EvCancel string instant "string option"
  | EvClear "string option"
  | EvRecv
  | EvBegin instant
  | EvAttach
  | EvSpawn nat
  | EvExit "string option" string string "envelope option" instant

fun step :: "event \<Rightarrow> world \<Rightarrow> world" where
  "step (EvSubmit req key tid now) w = snd (Submit req key tid now w)"
| "step (EvSend tid) w = Send tid w"
| "step (EvCancel tid now kerr) w =
     (case Cancel tid now kerr w of Inl e \<Rightarrow> w | Inr r \<Rightarrow> snd r)"
| "step (EvClear kerr) w =
     (case Clear kerr w of Inl e \<Rightarrow> w | Inr r \<Rightarrow> snd r)"
| "step EvRecv w =
     (case sequencer w of
        Idle \<Rightarrow> (case pending w of
                   [] \<Rightarrow> w
                 | tid # rest \<Rightarrow> w\<lparr>pending := rest, sequencer := Dequeued tid\<rparr>)
      | _ \<Rightarrow> w)"
| "step (EvBegin now) w =
     (case sequencer w of Dequeued tid \<Rightarrow> process_begin tid now w | _ \<Rightarrow> w)"
| "step EvAttach w =
     (case sequencer w of Started tid p c \<Rightarrow> process_attach tid p c w | _ \<Rightarrow> w)"
| "step (EvSpawn pid) w =
     (case sequencer w of Attached tid p c \<Rightarrow> process_spawn tid p c pid w | _ \<Rightarrow> w)"
| "step (EvExit err output errout parsed now) w =
     (case sequencer w of
        Waiting tid p c \<Rightarrow> process_end tid p err output errout parsed now w
      | Attached tid p c \<Rightarrow>
          if err \<noteq> None \<and> output = [] \<and> errout = []
          then process_end tid p err output errout parsed now w else w
      | _ \<Rightarrow> w)"

fun exec :: "world \<Rightarrow> event list \<Rightarrow> world" where
  "exec w [] = w"
| "exec w (e # es) = exec (step e w) es"

subsection \<open>What a caller sees of a job\<close>

text \<open>
  \<open>json.Marshal\<close> of a \<open>Task\<close>, by the struct tags: exported fields in order, a field
  tagged \<open>omitempty\<close> left out when it is false, empty or nil (a \<open>time.Time\<close> is never
  empty). The unexported \<open>apiKey\<close> has no tag and is not written.
\<close>

definition MarshalRequest :: "TaskRequestSafe \<Rightarrow> json" where
  "MarshalRequest r =
     JObject ([(''goal'', JString (Goal r))] @
              (if App r = [] then [] else [(''app'', JString (App r))]) @
              [(''provider'', JString (Provider r)), (''model'', JString (Model r)),
               (''reasoning'', JBool (Reasoning r)), (''vision'', JBool (Vision r)),
               (''max_steps'', JInt (MaxSteps r))])"

definition MarshalTask :: "Task \<Rightarrow> json" where
  "MarshalTask t =
     JObject ([(''id'', JString (ID t)), (''request'', MarshalRequest (Request t)),
               (''status'', JString (Status t))] @
              (if Success t then [(''success'', JBool True)] else []) @
              (if Result t = [] then [] else [(''result'', JString (Result t))]) @
              (if Error t = [] then [] else [(''error'', JString (Error t))]) @
              (if Logs t = [] then [] else [(''logs'', JString (Logs t))]) @
              (if Steps t = JNull then [] else [(''steps'', Steps t)]) @
              [(''created_at'', JTime (CreatedAt t)), (''started_at'', JTime (StartedAt t)),
               (''finished_at'', JTime (FinishedAt t))])"

text \<open>The bodies of \<open>GET /task/{id}\<close> and of the \<open>tasks\<close> entry of \<open>GET /queue\<close>.\<close>

definition task_response :: "world \<Rightarrow> string \<Rightarrow> json option" where
  "task_response w tid = map_option MarshalTask (Get w tid)"

definition queue_response :: "world \<Rightarrow> (string \<times> json) list" where
  "queue_response w = map (\<lambda>(tid, t). (tid, MarshalTask t)) (All w)"

subsection \<open>The store and the sequencer\<close>

text \<open>The pointer \<open>task\<close> that \<open>process\<close> holds between its first and its last critical
  section.\<close>

fun holds :: "pc \<Rightarrow> nat \<Rightarrow> bool" where
  "holds (Started tid q c) p = (q = p)"
| "holds (Attached tid q c) p = (q = p)"
| "holds (Waiting tid q c) p = (q = p)"
| "holds Idle p = False"
| "holds (Dequeued tid) p = False"

text \<open>The job stored under an ID has status running.\<close>

definition is_running :: "world \<Rightarrow> string \<Rightarrow> bool" where
  "is_running w tid = (case Get w tid of None \<Rightarrow> False | Some t \<Rightarrow> Status t = ''running'')"

text \<open>
  What every step keeps: the pointers of the store and of the sequencer are allocated,
  two IDs never share a record, and a record with status running is the one the
  sequencer holds.
\<close>

definition store_ok :: "world \<Rightarrow> bool" where
  "store_ok w \<longleftrightarrow>
     (\<forall>tid p. map_of (tasks w) tid = Some p \<longrightarrow> p < length (heap w)) \<and>
     (\<forall>i j p. map_of (tasks w) i = Some p \<and> map_of (tasks w) j = Some p \<longrightarrow> i = j) \<and>
     (\<forall>p. holds (sequencer w) p \<longrightarrow> p < length (heap w)) \<and>
     (\<forall>p. p < length (heap w) \<and> Status (heap w ! p) = ''running'' \<longrightarrow> holds (sequencer w) p)"

subsection \<open>A state without its credentials\<close>

text \<open>
  \<open>scrub\<close> blanks every place of a state that holds a credential: the \<open>apiKey\<close> of each
  record and the standard input of each command. \<open>scrub_ev\<close> blanks the credential a
  \<open>Submit\<close> is called with.
\<close>

definition scrub_task :: "Task \<Rightarrow> Task" where
  "scrub_task t = t\<lparr>apiKey := []\<rparr>"

definition scrub_cmd :: "cmd \<Rightarrow> cmd" where
  "scrub_cmd c = c\<lparr>stdin := JNull\<rparr>"

fun scrub_pc :: "pc \<Rightarrow> pc" where
  "scrub_pc Idle = Idle"
| "scrub_pc (Dequeued tid) = Dequeued tid"
| "scrub_pc (Started tid p c) = Started tid p (scrub_cmd c)"
| "scrub_pc (Attached tid p c) = Attached tid p (scrub_cmd c)"
| "scrub_pc (Waiting tid p c) = Waiting tid p (scrub_cmd c)"

definition scrub :: "world \<Rightarrow> world" where
  "scrub w =
     w\<lparr>heap := map scrub_task (heap w), currentCmd := map_option scrub_cmd (currentCmd w),
       sequencer := scrub_pc (sequencer w), killed := map scrub_cmd (killed w)\<rparr>"

fun scrub_ev :: "event \<Rightarrow> event" where
  "scrub_ev (EvSubmit req key tid now) = EvSubmit (req\<lparr>APIKey := []\<rparr>) [] tid now"
| "scrub_ev (EvSend tid) = EvSend tid"
| "scrub_ev (EvCancel tid now kerr) = EvCancel tid now kerr"
| "scrub_ev (EvClear kerr) = EvClear kerr"
| "scrub_ev EvRecv = EvRecv"
| "scrub_ev (EvBegin now) = EvBegin now"
| "scrub_ev EvAttach = EvAttach"
| "scrub_ev (EvSpawn pid) = EvSpawn pid"
| "scrub_ev (EvExit err output errout parsed now) = EvExit err output errout parsed now"

section \<open>A sample run\<close>

text \<open>
  Three jobs A, B and C are submitted in this order; the sequencer receives A, starts
  it, attaches the command, and the worker process is created with process ID 100. The
  run is used to evaluate the model on concrete inputs.
\<close>

definition sample_request :: "string \<Rightarrow> TaskRequest" where
  "sample_request goal =
     \<lparr>Goal = goal, App = [], Provider = ''Google'', Model = ''gemini-2.0-flash'',
      Reasoning = False, Vision = False, MaxSteps = 30, APIKey = []\<rparr>"

definition abc_submitted :: "event list" where
  "abc_submitted =
     [EvSubmit (sample_request ''A'') ''key-a'' ''0a'' 1, EvSend ''0a'',
      EvSubmit (sample_request ''B'') ''key-b'' ''0b'' 2, EvSend ''0b'',
      EvSubmit (sample_request ''C'') ''key-c'' ''0c'' 3, EvSend ''0c'']"

definition world_A_dequeued :: world where
  "world_A_dequeued = exec (NewQueue ''./worker.py'') (abc_submitted @ [EvRecv])"

definition world_A_started :: world where
  "world_A_started = step (EvBegin 4) world_A_dequeued"

definition world_A_attached :: world where
  "world_A_attached = step EvAttach world_A_started"

definition world_A_running :: world where
  "world_A_running = step (EvSpawn 100) world_A_attached"

definition world_A_cancelled :: world where
  "world_A_cancelled = step (EvCancel ''0a'' 5 None) world_A_running"

text \<open>What a worker writes on success and on failure, and the envelopes that
  \<open>json.Unmarshal\<close> makes of the two outputs.\<close>

definition sample_output :: "bool \<Rightarrow> string" where
  "sample_output ok =
     (if ok then ''{\"ok\":true,\"success\":true,\"reason\":\"done\"}''
      else ''{\"ok\":false,\"error\":\"device offline\"}'')"

definition sample_envelope :: "bool \<Rightarrow> envelope" where
  "sample_envelope ok =
     \<lparr>r_OK = ok, r_Success = ok, r_Reason = (if ok then ''done'' else []),
      r_Error = (if ok then [] else ''device offline''), r_Steps = JNull\<rparr>"

definition sample_task ::
  "string \<Rightarrow> string \<Rightarrow> string \<Rightarrow> string \<Rightarrow> instant \<Rightarrow> instant \<Rightarrow> instant \<Rightarrow> Task" where
  "sample_task tid goal key status created started finished =
     \<lparr>ID = tid,
      Request = \<lparr>Goal = goal, App = [], Provider = ''Google'', Model = ''gemini-2.0-flash'',
                 Reasoning = False, Vision = False, MaxSteps = 30\<rparr>,
      Status = status, Success = False, Result = [], Error = [], Logs = [], Steps = JNull,
      CreatedAt = created, StartedAt = started, FinishedAt = finished, apiKey = key\<rparr>"

text \<open>The command of A as \<open>process\<close> builds it, and with its worker process created.\<close>

definition sample_cmd_new :: cmd where
  "sample_cmd_new =
     \<lparr>argv = [''python3'', ''./worker.py''],
      stdin = JObject [(''api_key'', JString ''key-a''), (''app'', JString []),
                       (''goal'', JString ''A''), (''max_steps'', JInt 30),
                       (''model'', JString ''gemini-2.0-flash''),
                       (''provider'', JString ''Google''), (''reasoning'', JBool False),
                       (''vision'', JBool False)],
      Process = None\<rparr>"

definition sample_cmd :: cmd where
  "sample_cmd = sample_cmd_new\<lparr>Process := Some 100\<rparr>"

definition world_B_cancelled :: world where
  "world_B_cancelled = step (EvCancel ''0b'' 5 None) world_A_running"

text \<open>B is cancelled while it waits. Then the worker of A exits, the sequencer receives B,
  runs the first critical section of \<open>process\<close> on it, attaches its command, and the
  worker process of B is created with process ID 101.\<close>

definition world_B_dequeued :: world where
  "world_B_dequeued =
     exec world_B_cancelled
       [EvExit None (sample_output True) [] (Some (sample_envelope True)) 6, EvRecv]"

definition world_B_spawned :: world where
  "world_B_spawned = exec world_B_dequeued [EvBegin 7, EvAttach, EvSpawn 101]"

text \<open>A is cancelled between the first and the second critical section of \<open>process\<close>;
  then the sequencer attaches the command and the worker process is created.\<close>

definition world_A_cancelled_early :: world where
  "world_A_cancelled_early = step (EvCancel ''0a'' 5 None) world_A_started"

definition world_A_spawned_late :: world where
  "world_A_spawned_late = exec world_A_cancelled_early [EvAttach, EvSpawn 100]"

text \<open>A request body with the given goal, app, provider and step budget, and no model.\<close>

definition plain_request :: "string \<Rightarrow> string \<Rightarrow> string \<Rightarrow> int \<Rightarrow> TaskRequest" where
  "plain_request goal app provider steps =
     \<lparr>Goal = goal, App = app, Provider = provider, Model = [], Reasoning = False,
      Vision = False, MaxSteps = steps, APIKey = []\<rparr>"

text \<open>What \<open>handleRun\<close> leaves in a new queue for the request with goal \<open>test\<close>, provider
  \<open>Ollama\<close>, a step budget of 200 and no credential, given the ID \<open>0a\<close> at instant 1.\<close>

definition ollama_stored :: Task where
  "ollama_stored =
     \<lparr>ID = ''0a'',
      Request = \<lparr>Goal = ''test'', App = [], Provider = ''Ollama'', Model = ''llama3.2'',
                 Reasoning = False, Vision = False, MaxSteps = 100\<rparr>,
      Status = ''queued'', Success = False, Result = [], Error = [], Logs = [], Steps = JNull,
      CreatedAt = 1, StartedAt = 0, FinishedAt = 0, apiKey = []\<rparr>"

definition world_ollama :: world where
  "world_ollama =
     \<lparr>tasks = [(''0a'', 0)], pending = [], pendingOrder = [''0a''], current = [],
      currentCmd = None, workerPath = ''./worker.py'', heap = [ollama_stored],
      senders = [''0a''], sequencer = Idle, killed = [], logged = []\<rparr>"

section \<open>Evaluating the sample run\<close>

lemmas queue_defs =
  NewQueue_def Submit_def Send_def Cancel_def Clear_def Kill_def task_at_def Get_def
  removePendingOrder_def process_begin_def process_attach_def process_spawn_def
  process_end_def truncate_def worker_input_def Position_def Let_def

lemmas sample_defs =
  sample_request_def abc_submitted_def sample_task_def sample_cmd_def sample_cmd_new_def
  sample_envelope_def

lemma world_A_dequeued_eq:
  "world_A_dequeued =
     \<lparr>tasks = [(''0a'', 0), (''0b'', 1), (''0c'', 2)], pending = [''0b'', ''0c''],
      pendingOrder = [''0a'', ''0b'', ''0c''], current = [], currentCmd = None,
      workerPath = ''./worker.py'',
      heap = [sample_task ''0a'' ''A'' ''key-a'' ''queued'' 1 0 0,
              sample_task ''0b'' ''B'' ''key-b'' ''queued'' 2 0 0,
              sample_task ''0c'' ''C'' ''key-c'' ''queued'' 3 0 0],
      senders = [], sequencer = Dequeued ''0a'', killed = [], logged = []\<rparr>"
  by (simp add: world_A_dequeued_def queue_defs sample_defs)

lemma world_A_running_eq:
  "world_A_running =
     \<lparr>tasks = [(''0a'', 0), (''0b'', 1), (''0c'', 2)], pending = [''0b'', ''0c''],
      pendingOrder = [''0b'', ''0c''], current = ''0a'', currentCmd = Some sample_cmd,
      workerPath = ''./worker.py'',
      heap = [sample_task ''0a'' ''A'' ''key-a'' ''running'' 1 4 0,
              sample_task ''0b'' ''B'' ''key-b'' ''queued'' 2 0 0,
              sample_task ''0c'' ''C'' ''key-c'' ''queued'' 3 0 0],
      senders = [], sequencer = Waiting ''0a'' 0 sample_cmd, killed = [],
      logged = [''[0a] Starting task: A'']\<rparr>"
  by (simp add: world_A_running_def world_A_attached_def world_A_started_def
        world_A_dequeued_eq queue_defs sample_defs)

lemma world_A_cancelled_eq:
  "world_A_cancelled =
     \<lparr>tasks = [(''0a'', 0), (''0b'', 1), (''0c'', 2)], pending = [''0b'', ''0c''],
      pendingOrder = [''0b'', ''0c''], current = ''0a'', currentCmd = Some sample_cmd,
      workerPath = ''./worker.py'',
      heap = [sample_task ''0a'' ''A'' ''key-a'' ''cancelled'' 1 4 5,
              sample_task ''0b'' ''B'' ''key-b'' ''queued'' 2 0 0,
              sample_task ''0c'' ''C'' ''key-c'' ''queued'' 3 0 0],
      senders = [], sequencer = Waiting ''0a'' 0 sample_cmd, killed = [sample_cmd],
      logged = [''[0a] Starting task: A'']\<rparr>"
  by (simp add: world_A_cancelled_def world_A_running_eq queue_defs sample_defs)

section \<open>The pending order\<close>

lemma index_of_cut:
  "(case index_of xs tid of None \<Rightarrow> xs | Some i \<Rightarrow> take i xs @ drop (i + 1) xs) = remove1 tid xs"
  by (induction xs) (auto split: option.splits)

lemma removePendingOrder_remove1:
  "removePendingOrder tid w = w\<lparr>pendingOrder := remove1 tid (pendingOrder w)\<rparr>"
  using index_of_cut [of "pendingOrder w" tid]
  by (cases "index_of (pendingOrder w) tid") (simp_all add: removePendingOrder_def)

lemma index_of_None: "index_of xs tid = None \<longleftrightarrow> tid \<notin> set xs"
  by (induction xs) auto

lemma index_of_Some:
  "index_of xs tid = Some i \<Longrightarrow>
   i = length (takeWhile (\<lambda>t. t \<noteq> tid) xs) \<and> i < length xs \<and> xs ! i = tid"
  by (induction xs arbitrary: i) (auto split: if_splits)

lemma index_of_remove1_earlier:
  "index_of xs j = Some i \<Longrightarrow> index_of xs tid = Some k \<Longrightarrow> i < k \<Longrightarrow>
   index_of (remove1 j xs) tid = Some (k - 1)"
proof (induction xs arbitrary: i k)
  case Nil
  then show ?case by simp
next
  case (Cons x xs)
  show ?case
  proof (cases "x = j")
    case True
    with Cons.prems show ?thesis by (auto split: if_splits)
  next
    case False
    with Cons.prems have xt: "x \<noteq> tid" by (auto split: if_splits)
    from False Cons.prems obtain i' where i': "index_of xs j = Some i'" "i = Suc i'" by auto
    from xt Cons.prems obtain k' where k': "index_of xs tid = Some k'" "k = Suc k'" by auto
    from Cons.prems i' k' have "i' < k'" by simp
    from Cons.IH [OF i'(1) k'(1) this] have "index_of (remove1 j xs) tid = Some (k' - 1)" .
    moreover from \<open>i' < k'\<close> have "0 < k'" by simp
    ultimately show ?thesis using False xt k' by simp
  qed
qed

lemma Position_index:
  "Position w tid =
     (if current w = tid then 0
      else if tid \<in> set (pendingOrder w)
      then int (length (takeWhile (\<lambda>t. t \<noteq> tid) (pendingOrder w))) + 1 else - 1)"
proof (cases "index_of (pendingOrder w) tid")
  case None
  then have "tid \<notin> set (pendingOrder w)" by (simp add: index_of_None)
  with None show ?thesis by (simp add: Position_def)
next
  case (Some i)
  then have "tid \<in> set (pendingOrder w)"
    using index_of_None [of "pendingOrder w" tid] by auto
  with Some index_of_Some [OF Some] show ?thesis by (simp add: Position_def)
qed

lemma Position_pos:
  "0 < Position w tid \<Longrightarrow>
   current w \<noteq> tid \<and> (\<exists>i. index_of (pendingOrder w) tid = Some i \<and> Position w tid = int i + 1)"
  by (auto simp: Position_def split: if_splits option.splits)

lemma Position_after_removal:
  assumes j: "0 < Position w j" and lt: "Position w j < Position w tid"
    and po: "pendingOrder w' = remove1 j (pendingOrder w)"
    and cur: "current w' \<noteq> tid"
  shows "Position w' tid = Position w tid - 1"
proof -
  from Position_pos [OF j] obtain i
    where i: "index_of (pendingOrder w) j = Some i" "Position w j = int i + 1"
    by blast
  from j lt have "0 < Position w tid" by simp
  from Position_pos [OF this] obtain k
    where k: "index_of (pendingOrder w) tid = Some k" "Position w tid = int k + 1"
    by blast
  from lt i k have "i < k" by simp
  from index_of_remove1_earlier [OF i(1) k(1) this] po
  have "index_of (pendingOrder w') tid = Some (k - 1)" by simp
  with cur k \<open>i < k\<close> show ?thesis by (simp add: Position_def)
qed

lemma Cancel_True:
  assumes "Cancel j now kerr w = Inr (True, w')"
  shows "pendingOrder w' = remove1 j (pendingOrder w) \<and> current w' = current w"
  using assms
  by (auto simp: Cancel_def Kill_def removePendingOrder_remove1
           split: option.splits if_splits sum.splits)

lemma process_begin_found:
  assumes "task_at w j = Some (p, t)"
  shows "pendingOrder (process_begin j now w) = remove1 j (pendingOrder w) \<and>
         current (process_begin j now w) = j"
  using assms by (simp add: process_begin_def removePendingOrder_remove1 Let_def)

section \<open>Position\<close>

text \<open>
  C7. \<open>Position\<close> is 0 for the ID in \<open>current\<close>, the marker of the running job (it is
  empty while no job runs, and no job has an empty ID); otherwise it is the 1-based rank
  of the ID in the pending order (one more than the number of entries before its first
  occurrence), and -1 when the ID is not pending. When a job \<open>j\<close>
  that stands before a queued job in the pending order is cancelled (\<open>Cancel\<close> returns
  true) or starts running (the sequencer, having received \<open>j\<close>, finds its record and runs
  the first critical section of \<open>process\<close>), the position of the queued job goes down by
  exactly one.
\<close>

theorem Position_rank_and_decrease:
  "(current w = tid \<longrightarrow> Position w tid = 0) \<and>
   (current w \<noteq> tid \<and> tid \<in> set (pendingOrder w) \<longrightarrow>
      Position w tid = int (length (takeWhile (\<lambda>t. t \<noteq> tid) (pendingOrder w))) + 1) \<and>
   (current w \<noteq> tid \<and> tid \<notin> set (pendingOrder w) \<longrightarrow> Position w tid = - 1) \<and>
   (0 < Position w j \<and> Position w j < Position w tid \<longrightarrow>
      (Cancel j now kerr w = Inr (True, w') \<longrightarrow> Position w' tid = Position w tid - 1) \<and>
      (sequencer w = Dequeued j \<and> Get w j \<noteq> None \<longrightarrow>
         Position (step (EvBegin now) w) tid = Position w tid - 1))"
proof -
  have rank: "Position w tid =
     (if current w = tid then 0
      else if tid \<in> set (pendingOrder w)
      then int (length (takeWhile (\<lambda>t. t \<noteq> tid) (pendingOrder w))) + 1 else - 1)"
    by (rule Position_index)
  have dec: "Position w' tid = Position w tid - 1"
    if j: "0 < Position w j" "Position w j < Position w tid"
      and c: "Cancel j now kerr w = Inr (True, w')"
  proof -
    from j have "current w \<noteq> tid" using Position_pos [of w tid] by simp
    with Cancel_True [OF c] have "current w' \<noteq> tid" by simp
    with Position_after_removal [OF j] Cancel_True [OF c] show ?thesis by simp
  qed
  have beg: "Position (step (EvBegin now) w) tid = Position w tid - 1"
    if j: "0 < Position w j" "Position w j < Position w tid"
      and s: "sequencer w = Dequeued j" and g: "Get w j \<noteq> None"
  proof -
    from g obtain p t where pt: "task_at w j = Some (p, t)" by (auto simp: Get_def)
    from j have "j \<noteq> tid" by auto
    with process_begin_found [OF pt, of now]
      Position_after_removal [OF j, of "process_begin j now w"] s
    show ?thesis by simp
  qed
  from rank dec beg show ?thesis by simp
qed

theorem Position_rank_and_decrease_witness:
  "Position world_A_running ''0a'' = 0 \<and>
   Position world_A_running ''0b'' = 1 \<and>
   Position world_A_running ''0c'' = 2 \<and>
   Position world_A_running ''0d'' = - 1 \<and>
   Cancel ''0b'' 5 None world_A_running = Inr (True, world_B_cancelled) \<and>
   Position world_B_cancelled ''0c'' = 1 \<and>
   sequencer world_A_dequeued = Dequeued ''0a'' \<and>
   Get world_A_dequeued ''0a'' = Some (sample_task ''0a'' ''A'' ''key-a'' ''queued'' 1 0 0) \<and>
   Position world_A_dequeued ''0a'' = 1 \<and>
   Position world_A_dequeued ''0b'' = 2 \<and>
   Position (step (EvBegin 4) world_A_dequeued) ''0b'' = 1"
proof -
  have c: "Cancel ''0b'' 5 None world_A_running = Inr (True, world_B_cancelled)"
    by (simp add: world_B_cancelled_def world_A_running_eq queue_defs sample_defs)
  have p: "Position world_A_running ''0a'' = 0" "Position world_A_running ''0b'' = 1"
    "Position world_A_running ''0c'' = 2" "Position world_A_running ''0d'' = - 1"
    by (simp_all add: world_A_running_eq queue_defs)
  have d: "sequencer world_A_dequeued = Dequeued ''0a''"
    "Get world_A_dequeued ''0a'' = Some (sample_task ''0a'' ''A'' ''key-a'' ''queued'' 1 0 0)"
    "Position world_A_dequeued ''0a'' = 1" "Position world_A_dequeued ''0b'' = 2"
    by (simp_all add: world_A_dequeued_eq queue_defs)
  have "Position world_B_cancelled ''0c'' = Position world_A_running ''0c'' - 1"
    using Position_rank_and_decrease
      [where w = world_A_running and tid = "''0c''" and j = "''0b''" and now = 5
         and kerr = None and w' = world_B_cancelled]
      c p
    by (simp del: step.simps)
  moreover have "Position (step (EvBegin 4) world_A_dequeued) ''0b'' =
      Position world_A_dequeued ''0b'' - 1"
    using Position_rank_and_decrease
      [where w = world_A_dequeued and tid = "''0b''" and j = "''0a''" and now = 4] d
    by (simp del: step.simps)
  ultimately show ?thesis using c p d by (simp del: step.simps)
qed

section \<open>Cancel\<close>

lemma world_A_started_eq:
  "world_A_started =
     \<lparr>tasks = [(''0a'', 0), (''0b'', 1), (''0c'', 2)], pending = [''0b'', ''0c''],
      pendingOrder = [''0b'', ''0c''], current = ''0a'', currentCmd = None,
      workerPath = ''./worker.py'',
      heap = [sample_task ''0a'' ''A'' ''key-a'' ''running'' 1 4 0,
              sample_task ''0b'' ''B'' ''key-b'' ''queued'' 2 0 0,
              sample_task ''0c'' ''C'' ''key-c'' ''queued'' 3 0 0],
      senders = [], sequencer = Started ''0a'' 0 sample_cmd_new, killed = [],
      logged = [''[0a] Starting task: A'']\<rparr>"
  by (simp add: world_A_started_def world_A_dequeued_eq queue_defs sample_defs)

lemma world_A_attached_eq:
  "world_A_attached =
     \<lparr>tasks = [(''0a'', 0), (''0b'', 1), (''0c'', 2)], pending = [''0b'', ''0c''],
      pendingOrder = [''0b'', ''0c''], current = ''0a'', currentCmd = Some sample_cmd_new,
      workerPath = ''./worker.py'',
      heap = [sample_task ''0a'' ''A'' ''key-a'' ''running'' 1 4 0,
              sample_task ''0b'' ''B'' ''key-b'' ''queued'' 2 0 0,
              sample_task ''0c'' ''C'' ''key-c'' ''queued'' 3 0 0],
      senders = [], sequencer = Attached ''0a'' 0 sample_cmd_new, killed = [],
      logged = [''[0a] Starting task: A'']\<rparr>"
  by (simp add: world_A_attached_def world_A_started_eq queue_defs)

text \<open>
  C6 fails in the code. The claim: \<open>Cancel\<close> of the running job that \<open>current\<close> names
  terminates the worker process, marks the job cancelled, sets its finished time and
  returns true.

  First window: A is running by its status, \<open>current\<close> names it and \<open>q.currentCmd\<close> is set,
  but \<open>cmd.Run()\<close> has not yet created the process (\<open>Process\<close> is nil).
  \<open>Cancel\<close> panics in \<open>q.currentCmd.Process.Kill()\<close>: it returns nothing and writes
  nothing, so A stays running with no finished time, nothing is signalled, and the
  worker process is then created and runs.

  Second window: A is running by its status and \<open>current\<close> names it, but \<open>q.currentCmd\<close>
  is still nil. \<open>Cancel\<close> returns true and marks A cancelled, and signals nothing; the
  sequencer then attaches the command and creates the worker process of the cancelled
  job, which runs to its end.
\<close>

theorem Cancel_before_worker_starts:
  "Get world_A_attached ''0a'' = Some (sample_task ''0a'' ''A'' ''key-a'' ''running'' 1 4 0) \<and>
   current world_A_attached = ''0a'' \<and>
   currentCmd world_A_attached = Some sample_cmd_new \<and>
   Process sample_cmd_new = None \<and>
   Cancel ''0a'' 5 None world_A_attached = Inl NilDereference \<and>
   step (EvCancel ''0a'' 5 None) world_A_attached = world_A_attached \<and>
   exec world_A_attached [EvCancel ''0a'' 5 None, EvSpawn 100] = world_A_running \<and>
   Get world_A_running ''0a'' = Some (sample_task ''0a'' ''A'' ''key-a'' ''running'' 1 4 0) \<and>
   sequencer world_A_running = Waiting ''0a'' 0 sample_cmd \<and>
   killed world_A_running = [] \<and>
   Get world_A_started ''0a'' = Some (sample_task ''0a'' ''A'' ''key-a'' ''running'' 1 4 0) \<and>
   current world_A_started = ''0a'' \<and>
   currentCmd world_A_started = None \<and>
   Cancel ''0a'' 5 None world_A_started = Inr (True, world_A_cancelled_early) \<and>
   Get world_A_cancelled_early ''0a'' =
     Some (sample_task ''0a'' ''A'' ''key-a'' ''cancelled'' 1 4 5) \<and>
   killed world_A_cancelled_early = [] \<and>
   Get world_A_spawned_late ''0a'' =
     Some (sample_task ''0a'' ''A'' ''key-a'' ''cancelled'' 1 4 5) \<and>
   sequencer world_A_spawned_late = Waiting ''0a'' 0 sample_cmd \<and>
   currentCmd world_A_spawned_late = Some sample_cmd \<and>
   killed world_A_spawned_late = []"
proof -
  have panic: "Cancel ''0a'' 5 None world_A_attached = Inl NilDereference"
    by (simp add: world_A_attached_eq queue_defs sample_defs)
  then have same: "step (EvCancel ''0a'' 5 None) world_A_attached = world_A_attached"
    by simp
  have early: "world_A_cancelled_early =
     \<lparr>tasks = [(''0a'', 0), (''0b'', 1), (''0c'', 2)], pending = [''0b'', ''0c''],
      pendingOrder = [''0b'', ''0c''], current = ''0a'', currentCmd = None,
      workerPath = ''./worker.py'',
      heap = [sample_task ''0a'' ''A'' ''key-a'' ''cancelled'' 1 4 5,
              sample_task ''0b'' ''B'' ''key-b'' ''queued'' 2 0 0,
              sample_task ''0c'' ''C'' ''key-c'' ''queued'' 3 0 0],
      senders = [], sequencer = Started ''0a'' 0 sample_cmd_new, killed = [],
      logged = [''[0a] Starting task: A'']\<rparr>"
    by (simp add: world_A_cancelled_early_def world_A_started_eq queue_defs sample_defs)
  have ret: "Cancel ''0a'' 5 None world_A_started = Inr (True, world_A_cancelled_early)"
    by (simp add: early) (simp add: world_A_started_eq queue_defs sample_defs)
  have late: "world_A_spawned_late =
     \<lparr>tasks = [(''0a'', 0), (''0b'', 1), (''0c'', 2)], pending = [''0b'', ''0c''],
      pendingOrder = [''0b'', ''0c''], current = ''0a'', currentCmd = Some sample_cmd,
      workerPath = ''./worker.py'',
      heap = [sample_task ''0a'' ''A'' ''key-a'' ''cancelled'' 1 4 5,
              sample_task ''0b'' ''B'' ''key-b'' ''queued'' 2 0 0,
              sample_task ''0c'' ''C'' ''key-c'' ''queued'' 3 0 0],
      senders = [], sequencer = Waiting ''0a'' 0 sample_cmd, killed = [],
      logged = [''[0a] Starting task: A'']\<rparr>"
    by (simp add: world_A_spawned_late_def early queue_defs sample_defs)
  have first: "Get world_A_attached ''0a'' =
      Some (sample_task ''0a'' ''A'' ''key-a'' ''running'' 1 4 0)"
    "current world_A_attached = ''0a''" "currentCmd world_A_attached = Some sample_cmd_new"
    "Process sample_cmd_new = None"
    by (simp_all add: world_A_attached_eq queue_defs sample_cmd_new_def)
  have run: "exec world_A_attached [EvCancel ''0a'' 5 None, EvSpawn 100] = world_A_running"
    using same by (simp add: world_A_running_def del: step.simps)
  have after: "Get world_A_running ''0a'' =
      Some (sample_task ''0a'' ''A'' ''key-a'' ''running'' 1 4 0)"
    "sequencer world_A_running = Waiting ''0a'' 0 sample_cmd" "killed world_A_running = []"
    by (simp_all add: world_A_running_eq queue_defs)
  have second: "Get world_A_started ''0a'' =
      Some (sample_task ''0a'' ''A'' ''key-a'' ''running'' 1 4 0)"
    "current world_A_started = ''0a''" "currentCmd world_A_started = None"
    by (simp_all add: world_A_started_eq queue_defs)
  have cancelled: "Get world_A_cancelled_early ''0a'' =
      Some (sample_task ''0a'' ''A'' ''key-a'' ''cancelled'' 1 4 5)"
    "killed world_A_cancelled_early = []"
    by (simp_all add: early queue_defs)
  have spawned: "Get world_A_spawned_late ''0a'' =
      Some (sample_task ''0a'' ''A'' ''key-a'' ''cancelled'' 1 4 5)"
    "sequencer world_A_spawned_late = Waiting ''0a'' 0 sample_cmd"
    "currentCmd world_A_spawned_late = Some sample_cmd" "killed world_A_spawned_late = []"
    by (simp_all add: late queue_defs)
  from first panic same run after second ret cancelled spawned show ?thesis
    by (simp only: simp_thms)
qed

section \<open>The end of a run\<close>

text \<open>
  C4. When the worker has exited and the record the sequencer holds reads cancelled, the
  last critical section of \<open>process\<close> leaves the status cancelled and does not write
  the success flag, the result text, the error text or the step trace, whatever the
  worker returned.
\<close>

theorem cancelled_wins_at_exit:
  assumes "sequencer w = Waiting tid p c" and "p < length (heap w)"
    and "Status (heap w ! p) = ''cancelled''"
  shows "let t = heap w ! p; t' = heap (step (EvExit err output errout parsed now) w) ! p
         in Status t' = ''cancelled'' \<and> Success t' = Success t \<and> Result t' = Result t \<and>
            Error t' = Error t \<and> Steps t' = Steps t"
  using assms by (simp add: process_end_def Let_def)

theorem cancelled_wins_at_exit_witness:
  "sequencer world_A_cancelled = Waiting ''0a'' 0 sample_cmd \<and>
   0 < length (heap world_A_cancelled) \<and>
   Status (heap world_A_cancelled ! 0) = ''cancelled'' \<and>
   Status (heap (step (EvExit None (sample_output True) [] (Some (sample_envelope True)) 6)
                  world_A_cancelled) ! 0) = ''cancelled'' \<and>
   \<not> Success (heap (step (EvExit None (sample_output True) [] (Some (sample_envelope True)) 6)
                  world_A_cancelled) ! 0) \<and>
   Result (heap (step (EvExit None (sample_output True) [] (Some (sample_envelope True)) 6)
                  world_A_cancelled) ! 0) = [] \<and>
   Error (heap (step (EvExit None (sample_output True) [] (Some (sample_envelope True)) 6)
                  world_A_cancelled) ! 0) = []"
proof -
  have h: "sequencer world_A_cancelled = Waiting ''0a'' 0 sample_cmd"
    "0 < length (heap world_A_cancelled)"
    "Status (heap world_A_cancelled ! 0) = ''cancelled''"
    by (simp_all add: world_A_cancelled_eq sample_task_def)
  have old: "\<not> Success (heap world_A_cancelled ! 0)" "Result (heap world_A_cancelled ! 0) = []"
    "Error (heap world_A_cancelled ! 0) = []"
    by (simp_all add: world_A_cancelled_eq sample_task_def)
  from cancelled_wins_at_exit [OF h, of None "sample_output True" "[]" "Some (sample_envelope True)" 6]
    h old
  show ?thesis by (simp add: Let_def del: step.simps)
qed

text \<open>
  C10, as amended. The worker exits with status zero (\<open>err\<close> is nil) and its output
  decodes to an envelope whose \<open>ok\<close> is false. Unless the record reads cancelled at that
  moment, the job is marked failed, its error text is the envelope's error field, and
  the success flag, the result text and the step trace are not written.
\<close>

theorem failed_envelope_at_exit:
  assumes "sequencer w = Waiting tid p c" and "p < length (heap w)"
    and "Status (heap w ! p) \<noteq> ''cancelled''" and "\<not> r_OK r"
  shows "let t = heap w ! p; t' = heap (step (EvExit None output errout (Some r) now) w) ! p
         in Status t' = ''failed'' \<and> Error t' = r_Error r \<and> Success t' = Success t \<and>
            Result t' = Result t \<and> Steps t' = Steps t"
  using assms by (simp add: process_end_def Let_def)

theorem failed_envelope_at_exit_witness:
  "sequencer world_A_running = Waiting ''0a'' 0 sample_cmd \<and>
   0 < length (heap world_A_running) \<and>
   Status (heap world_A_running ! 0) = ''running'' \<and>
   r_OK (sample_envelope False) = False \<and>
   Status (heap (step (EvExit None (sample_output False) [] (Some (sample_envelope False)) 6)
                  world_A_running) ! 0) = ''failed'' \<and>
   Error (heap (step (EvExit None (sample_output False) [] (Some (sample_envelope False)) 6)
                  world_A_running) ! 0) = ''device offline'' \<and>
   Success (heap (step (EvExit None (sample_output False) [] (Some (sample_envelope False)) 6)
                  world_A_running) ! 0) = False \<and>
   Result (heap (step (EvExit None (sample_output False) [] (Some (sample_envelope False)) 6)
                  world_A_running) ! 0) = [] \<and>
   Steps (heap (step (EvExit None (sample_output False) [] (Some (sample_envelope False)) 6)
                  world_A_running) ! 0) = JNull"
proof -
  have h: "sequencer world_A_running = Waiting ''0a'' 0 sample_cmd"
    "0 < length (heap world_A_running)"
    "Status (heap world_A_running ! 0) \<noteq> ''cancelled''"
    "\<not> r_OK (sample_envelope False)"
    by (simp_all add: world_A_running_eq sample_task_def sample_envelope_def)
  have old: "Status (heap world_A_running ! 0) = ''running''"
    "Success (heap world_A_running ! 0) = False" "Result (heap world_A_running ! 0) = []"
    "Steps (heap world_A_running ! 0) = JNull" "r_Error (sample_envelope False) = ''device offline''"
    by (simp_all add: world_A_running_eq sample_task_def sample_envelope_def)
  from failed_envelope_at_exit [OF h, of "sample_output False" "[]" 6] h old
  show ?thesis by (simp add: Let_def del: step.simps)
qed

text \<open>
  The claim C10 as it is written fails for a job cancelled while its worker ran: the
  worker of A exits with status zero and an envelope whose \<open>ok\<close> is false, and the job
  stays cancelled with an empty error text.
\<close>

theorem failed_envelope_counterexample:
  "sequencer world_A_cancelled = Waiting ''0a'' 0 sample_cmd \<and>
   r_OK (sample_envelope False) = False \<and>
   r_Error (sample_envelope False) = ''device offline'' \<and>
   Status (heap (step (EvExit None (sample_output False) [] (Some (sample_envelope False)) 6)
                  world_A_cancelled) ! 0) = ''cancelled'' \<and>
   Error (heap (step (EvExit None (sample_output False) [] (Some (sample_envelope False)) 6)
                  world_A_cancelled) ! 0) = []"
  by (simp add: world_A_cancelled_eq sample_task_def sample_envelope_def process_end_def)

text \<open>
  C9, as amended. The worker exits with status zero and \<open>json.Unmarshal\<close> rejects its
  output. Unless the record reads cancelled at that moment, the job is marked failed and
  its error text is \<open>invalid worker output: \<close> followed by the whole output; the text
  is not cut to any length.
\<close>

theorem unparsable_output_at_exit:
  assumes "sequencer w = Waiting tid p c" and "p < length (heap w)"
    and "Status (heap w ! p) \<noteq> ''cancelled''"
  shows "let t' = heap (step (EvExit None output errout None now) w) ! p
         in Status t' = ''failed'' \<and> Error t' = ''invalid worker output: '' @ output"
  using assms by (simp add: process_end_def Let_def)

theorem unparsable_output_at_exit_witness:
  "sequencer world_A_running = Waiting ''0a'' 0 sample_cmd \<and>
   0 < length (heap world_A_running) \<and>
   Status (heap world_A_running ! 0) = ''running'' \<and>
   Status (heap (step (EvExit None ''Traceback (most recent call last):'' [] None 6)
                  world_A_running) ! 0) = ''failed'' \<and>
   Error (heap (step (EvExit None ''Traceback (most recent call last):'' [] None 6)
                  world_A_running) ! 0) =
     ''invalid worker output: Traceback (most recent call last):''"
proof -
  have h: "sequencer world_A_running = Waiting ''0a'' 0 sample_cmd"
    "0 < length (heap world_A_running)"
    "Status (heap world_A_running ! 0) \<noteq> ''cancelled''"
    by (simp_all add: world_A_running_eq sample_task_def)
  have old: "Status (heap world_A_running ! 0) = ''running''"
    by (simp add: world_A_running_eq sample_task_def)
  from unparsable_output_at_exit [OF h, of "''Traceback (most recent call last):''" "[]" 6] h old
  show ?thesis by (simp add: Let_def del: step.simps)
qed

text \<open>
  The claim C9 as it is written fails twice. No length bounds the error text: an output
  of \<open>n\<close> bytes that is no JSON (here \<open>n\<close> times the letter x) gives an error text of
  \<open>n + 23\<close> bytes. And a job cancelled while its worker ran stays cancelled, with an
  empty error text.
\<close>

theorem unparsable_output_counterexample:
  "\<not> (\<exists>bound. \<forall>n.
        length (Error (heap (step (EvExit None (replicate n (CHR ''x'')) [] None 6)
                               world_A_running) ! 0)) \<le> bound) \<and>
   Error (heap (step (EvExit None (replicate 200 (CHR ''x'')) [] None 6) world_A_running) ! 0) =
     ''invalid worker output: '' @ replicate 200 (CHR ''x'') \<and>
   Status (heap (step (EvExit None ''Traceback (most recent call last):'' [] None 6)
                  world_A_cancelled) ! 0) = ''cancelled'' \<and>
   Error (heap (step (EvExit None ''Traceback (most recent call last):'' [] None 6)
                  world_A_cancelled) ! 0) = []"
proof -
  have e: "Error (heap (step (EvExit None out [] None 6) world_A_running) ! 0) =
      ''invalid worker output: '' @ out" for out
    by (simp add: world_A_running_eq sample_task_def process_end_def)
  have "\<not> (\<exists>bound. \<forall>n.
        length (Error (heap (step (EvExit None (replicate n (CHR ''x'')) [] None 6)
                               world_A_running) ! 0)) \<le> bound)"
  proof
    assume "\<exists>bound. \<forall>n.
        length (Error (heap (step (EvExit None (replicate n (CHR ''x'')) [] None 6)
                               world_A_running) ! 0)) \<le> bound"
    then obtain bound where
      "\<forall>n. length (Error (heap (step (EvExit None (replicate n (CHR ''x'')) [] None 6)
                               world_A_running) ! 0)) \<le> bound"
      by blast
    then have "length (Error (heap (step (EvExit None (replicate (Suc bound) (CHR ''x'')) [] None 6)
                               world_A_running) ! 0)) \<le> bound"
      by blast
    then show False by (simp add: e del: step.simps)
  qed
  moreover have "Status (heap (step (EvExit None ''Traceback (most recent call last):'' [] None 6)
                  world_A_cancelled) ! 0) = ''cancelled''"
    "Error (heap (step (EvExit None ''Traceback (most recent call last):'' [] None 6)
                  world_A_cancelled) ! 0) = []"
    by (simp_all add: world_A_cancelled_eq sample_task_def process_end_def)
  ultimately show ?thesis using e [of "replicate 200 (CHR ''x'')"] by (simp only: simp_thms)
qed

section \<open>Validation and submission\<close>

lemma validateRequest_error:
  "isl (validateRequest req key) \<longleftrightarrow>
     TrimSpace (Goal req) = [] \<or>
     \<not> validProviders (if Provider req = [] then ''Google'' else Provider req) \<or>
     (App req \<noteq> [] \<and> \<not> matchPackage (App req)) \<or>
     (key = [] \<and> (if Provider req = [] then ''Google'' else Provider req) \<noteq> ''Ollama'')"
  by (auto simp: validateRequest_def Let_def)

lemma validateRequest_ok:
  assumes "validateRequest req key = Inr r"
  shows "MaxSteps r = (if MaxSteps req \<le> 0 then 30 else if 100 < MaxSteps req then 100 else MaxSteps req)"
  using assms by (auto simp: validateRequest_def Let_def split: if_splits)

lemma Submit_record:
  assumes "Submit r key tid now w = (p, w')"
  shows "Get w' tid = Some (heap w' ! p) \<and> Status (heap w' ! p) = ''queued'' \<and>
         MaxSteps (Request (heap w' ! p)) = (if MaxSteps r = 0 then 30 else MaxSteps r)"
  using assms by (auto simp: Submit_def Get_def task_at_def Let_def update_conv')

text \<open>
  C5, as amended. \<open>handleRun\<close> answers with a validation error exactly when the trimmed
  goal is empty, the provider (\<open>Google\<close> when the request names none) is not a supported
  one, the app is given and does not match the package-name pattern, or the credential
  is empty and the provider (\<open>Google\<close> when the request names none) is not \<open>Ollama\<close>.
  Otherwise the record it submits is stored under the ID with status queued, and its
  step budget is 30 for a budget of zero or less, 100 for a budget above 100 and the
  given budget otherwise, so it lies between 1 and 100. Provider \<open>Ollama\<close> with no
  credential is accepted (given a goal and no app); provider \<open>Google\<close> with no credential
  is rejected.
\<close>

theorem handleRun_validation:
  "(isl (handleRun header req tid now w) \<longleftrightarrow>
      TrimSpace (Goal req) = [] \<or>
      \<not> validProviders (if Provider req = [] then ''Google'' else Provider req) \<or>
      (App req \<noteq> [] \<and> \<not> matchPackage (App req)) \<or>
      (credential header req = [] \<and>
       (if Provider req = [] then ''Google'' else Provider req) \<noteq> ''Ollama'')) \<and>
   (handleRun header req tid now w = Inr (p, w') \<longrightarrow>
      Get w' tid = Some (heap w' ! p) \<and> Status (heap w' ! p) = ''queued'' \<and>
      MaxSteps (Request (heap w' ! p)) =
        (if MaxSteps req \<le> 0 then 30 else if 100 < MaxSteps req then 100 else MaxSteps req) \<and>
      1 \<le> MaxSteps (Request (heap w' ! p)) \<and> MaxSteps (Request (heap w' ! p)) \<le> 100) \<and>
   (Provider req = ''Ollama'' \<and> credential header req = [] \<and> TrimSpace (Goal req) \<noteq> [] \<and>
    App req = [] \<longrightarrow> \<not> isl (handleRun header req tid now w)) \<and>
   (Provider req = ''Google'' \<and> credential header req = [] \<longrightarrow>
      isl (handleRun header req tid now w))"
proof -
  let ?req1 = "req\<lparr>APIKey := []\<rparr>"
  let ?key = "credential header req"
  have run: "handleRun header req tid now w =
      (case validateRequest ?req1 ?key of Inl e \<Rightarrow> Inl e
       | Inr req2 \<Rightarrow> Inr (Submit req2 ?key tid now w))"
    by (simp add: handleRun_def Let_def)
  have err: "isl (handleRun header req tid now w) \<longleftrightarrow> isl (validateRequest ?req1 ?key)"
    by (simp add: run split: sum.splits)
  have iff: "isl (handleRun header req tid now w) \<longleftrightarrow>
      TrimSpace (Goal req) = [] \<or>
      \<not> validProviders (if Provider req = [] then ''Google'' else Provider req) \<or>
      (App req \<noteq> [] \<and> \<not> matchPackage (App req)) \<or>
      (?key = [] \<and> (if Provider req = [] then ''Google'' else Provider req) \<noteq> ''Ollama'')"
    using validateRequest_error [of ?req1 ?key] by (simp add: err)
  have ok: "Get w' tid = Some (heap w' ! p) \<and> Status (heap w' ! p) = ''queued'' \<and>
      MaxSteps (Request (heap w' ! p)) =
        (if MaxSteps req \<le> 0 then 30 else if 100 < MaxSteps req then 100 else MaxSteps req) \<and>
      1 \<le> MaxSteps (Request (heap w' ! p)) \<and> MaxSteps (Request (heap w' ! p)) \<le> 100"
    if h: "handleRun header req tid now w = Inr (p, w')"
  proof -
    from h run obtain r where r: "validateRequest ?req1 ?key = Inr r"
      and s: "Submit r ?key tid now w = (p, w')"
      by (auto split: sum.splits)
    from validateRequest_ok [OF r]
    have m: "MaxSteps r = (if MaxSteps req \<le> 0 then 30 else if 100 < MaxSteps req then 100 else MaxSteps req)"
      by simp
    then have "MaxSteps r \<noteq> 0" by (simp split: if_splits)
    with Submit_record [OF s] m show ?thesis by (simp split: if_splits)
  qed
  have ollama: "\<not> isl (handleRun header req tid now w)"
    if "Provider req = ''Ollama'' \<and> ?key = [] \<and> TrimSpace (Goal req) \<noteq> [] \<and> App req = []"
    using that by (simp add: iff validProviders_def)
  have google: "isl (handleRun header req tid now w)"
    if "Provider req = ''Google'' \<and> ?key = []"
    using that by (simp add: iff)
  from iff ok ollama google show ?thesis by blast
qed

theorem handleRun_validation_witness:
  "handleRun [] (plain_request ''test'' [] ''Ollama'' 200) ''0a'' 1 (NewQueue ''./worker.py'') =
     Inr (0, world_ollama) \<and>
   Get world_ollama ''0a'' = Some ollama_stored \<and>
   Status ollama_stored = ''queued'' \<and>
   MaxSteps (Request ollama_stored) = 100 \<and>
   handleRun [] (plain_request ''test'' [] ''Google'' 30) ''0a'' 1 (NewQueue ''./worker.py'') =
     Inl ''API key required (use X-API-Key header)'' \<and>
   handleRun ''key'' (plain_request ''   '' [] ''Google'' 30) ''0a'' 1 (NewQueue ''./worker.py'') =
     Inl ''goal is required'' \<and>
   isl (handleRun ''key'' (plain_request ''test'' [] ''Mistral'' 30) ''0a'' 1
          (NewQueue ''./worker.py'')) \<and>
   handleRun [] (plain_request ''test'' ''invalid'' ''Ollama'' 30) ''0a'' 1
     (NewQueue ''./worker.py'') = Inl ''invalid app package name: invalid''"
proof -
  let ?w = "NewQueue ''./worker.py''"
  have run: "handleRun [] (plain_request ''test'' [] ''Ollama'' 200) ''0a'' 1 ?w =
      Inr (0, world_ollama)"
    by code_simp
  have ollama: "Provider (plain_request ''test'' [] ''Ollama'' 200) = ''Ollama''"
    "credential [] (plain_request ''test'' [] ''Ollama'' 200) = []"
    "TrimSpace (Goal (plain_request ''test'' [] ''Ollama'' 200)) \<noteq> []"
    "App (plain_request ''test'' [] ''Ollama'' 200) = []"
    "MaxSteps (plain_request ''test'' [] ''Ollama'' 200) = 200"
    by code_simp+
  have stored: "heap world_ollama ! 0 = ollama_stored"
    by (simp add: world_ollama_def)
  from handleRun_validation
    [where header = "[]" and req = "plain_request ''test'' [] ''Ollama'' 200" and tid = "''0a''"
       and now = 1 and w = ?w and p = 0 and w' = world_ollama]
    run ollama stored
  have accepted: "Get world_ollama ''0a'' = Some ollama_stored"
    "Status ollama_stored = ''queued''" "MaxSteps (Request ollama_stored) = 100"
    by simp_all
  have google: "Provider (plain_request ''test'' [] ''Google'' 30) = ''Google''"
    "credential [] (plain_request ''test'' [] ''Google'' 30) = []"
    by code_simp+
  from handleRun_validation
    [where header = "[]" and req = "plain_request ''test'' [] ''Google'' 30" and tid = "''0a''"
       and now = 1 and w = ?w]
    google
  have "isl (handleRun [] (plain_request ''test'' [] ''Google'' 30) ''0a'' 1 ?w)"
    by (simp del: step.simps)
  moreover have "handleRun [] (plain_request ''test'' [] ''Google'' 30) ''0a'' 1 ?w =
      Inl ''API key required (use X-API-Key header)''"
    by code_simp
  moreover have "handleRun ''key'' (plain_request ''   '' [] ''Google'' 30) ''0a'' 1 ?w =
      Inl ''goal is required''"
    by code_simp
  moreover have "isl (handleRun ''key'' (plain_request ''test'' [] ''Mistral'' 30) ''0a'' 1 ?w)"
    by code_simp
  moreover have "handleRun [] (plain_request ''test'' ''invalid'' ''Ollama'' 30) ''0a'' 1 ?w =
      Inl ''invalid app package name: invalid''"
    by code_simp
  ultimately show ?thesis using run accepted by (simp only: simp_thms)
qed

text \<open>
  The claim C5 as it is written fails in two ways. \<open>Queue.Submit\<close> itself validates
  nothing and clamps nothing: called with a blank goal, the provider \<open>Mistral\<close>, no
  credential and a step budget of -5, it stores a queued record with that budget. And
  on the path of \<open>handleRun\<close> a request that names no provider is accepted, with provider
  \<open>Google\<close>, although the empty provider is not in the supported set.
\<close>

theorem handleRun_validation_counterexample:
  "Status (heap (snd (Submit (plain_request ''   '' [] ''Mistral'' (- 5)) [] ''0a'' 1
                        (NewQueue ''./worker.py''))) ! 0) = ''queued'' \<and>
   MaxSteps (Request (heap (snd (Submit (plain_request ''   '' [] ''Mistral'' (- 5)) [] ''0a'' 1
                                   (NewQueue ''./worker.py''))) ! 0)) = - 5 \<and>
   validProviders (Provider (plain_request ''test'' [] [] 30)) = False \<and>
   isl (handleRun ''key'' (plain_request ''test'' [] [] 30) ''0a'' 1 (NewQueue ''./worker.py'')) =
     False \<and>
   map_option (\<lambda>t. Provider (Request t))
     (Get (snd (projr (handleRun ''key'' (plain_request ''test'' [] [] 30) ''0a'' 1
                        (NewQueue ''./worker.py'')))) ''0a'') = Some ''Google''"
  by code_simp

section \<open>One running job\<close>

lemma holds_same: "holds s p \<Longrightarrow> holds s q \<Longrightarrow> p = q"
  by (cases s) auto

lemma store_okI:
  assumes "\<And>tid p. map_of (tasks w) tid = Some p \<Longrightarrow> p < length (heap w)"
    and "\<And>i j p. map_of (tasks w) i = Some p \<Longrightarrow> map_of (tasks w) j = Some p \<Longrightarrow> i = j"
    and "\<And>p. holds (sequencer w) p \<Longrightarrow> p < length (heap w)"
    and "\<And>p. p < length (heap w) \<Longrightarrow> Status (heap w ! p) = ''running'' \<Longrightarrow>
           holds (sequencer w) p"
  shows "store_ok w"
  unfolding store_ok_def using assms by blast

lemma store_ok_ptr: "store_ok w \<Longrightarrow> map_of (tasks w) tid = Some p \<Longrightarrow> p < length (heap w)"
  unfolding store_ok_def by blast

lemma store_ok_inj:
  "store_ok w \<Longrightarrow> map_of (tasks w) i = Some p \<Longrightarrow> map_of (tasks w) j = Some p \<Longrightarrow> i = j"
  unfolding store_ok_def by blast

lemma store_ok_holds: "store_ok w \<Longrightarrow> holds (sequencer w) p \<Longrightarrow> p < length (heap w)"
  unfolding store_ok_def by blast

lemma store_ok_running:
  "store_ok w \<Longrightarrow> p < length (heap w) \<Longrightarrow> Status (heap w ! p) = ''running'' \<Longrightarrow>
   holds (sequencer w) p"
  unfolding store_ok_def by blast

text \<open>A step that changes neither the heap, the map nor the sequencer keeps the invariant.\<close>

lemma store_ok_cong:
  assumes "store_ok w" and "heap w' = heap w" and "tasks w' = tasks w"
    and "sequencer w' = sequencer w"
  shows "store_ok w'"
  using assms unfolding store_ok_def by simp

text \<open>A write of a record that is not running, through any pointer.\<close>

lemma store_ok_write:
  assumes ok: "store_ok w" and t: "Status t \<noteq> ''running''"
    and h: "heap w' = (heap w)[p := t]" and ts: "tasks w' = tasks w"
    and sq: "sequencer w' = sequencer w"
  shows "store_ok w'"
proof (rule store_okI)
  fix tid q assume "map_of (tasks w') tid = Some q"
  with ok ts h show "q < length (heap w')" by (simp add: store_ok_ptr)
next
  fix i j q assume "map_of (tasks w') i = Some q" "map_of (tasks w') j = Some q"
  with ok ts show "i = j" by (simp add: store_ok_inj)
next
  fix q assume "holds (sequencer w') q"
  with ok sq h show "q < length (heap w')" by (simp add: store_ok_holds)
next
  fix q assume q: "q < length (heap w')" and r: "Status (heap w' ! q) = ''running''"
  from q h have ql: "q < length (heap w)" by simp
  have "q \<noteq> p"
  proof
    assume "q = p"
    with ql h have "heap w' ! q = t" by simp
    with r t show False by simp
  qed
  with h r have "Status (heap w ! q) = ''running''" by simp
  with ok ql sq show "holds (sequencer w') q" by (simp add: store_ok_running)
qed

lemma store_ok_NewQueue: "store_ok (NewQueue path)"
  by (simp add: store_ok_def NewQueue_def)

lemma Submit_fields:
  "\<exists>t. Status t = ''queued'' \<and>
       heap (snd (Submit req key tid now w)) = heap w @ [t] \<and>
       tasks (snd (Submit req key tid now w)) = AList.update tid (length (heap w)) (tasks w) \<and>
       sequencer (snd (Submit req key tid now w)) = sequencer w"
  by (simp add: Submit_def Let_def)

lemma store_ok_Submit:
  assumes ok: "store_ok w"
  shows "store_ok (snd (Submit req key tid now w))"
proof -
  let ?w' = "snd (Submit req key tid now w)"
  let ?n = "length (heap w)"
  from Submit_fields [of req key tid now w] obtain t
    where t: "Status t = ''queued''" and h: "heap ?w' = heap w @ [t]"
      and ts: "map_of (tasks ?w') = (map_of (tasks w))(tid \<mapsto> ?n)"
      and sq: "sequencer ?w' = sequencer w"
    by (auto simp: update_conv')
  have old: "q < ?n" if "i \<noteq> tid" "map_of (tasks ?w') i = Some q" for i q
    using that ok ts by (simp add: store_ok_ptr)
  have new: "q = ?n" if "map_of (tasks ?w') tid = Some q" for q
    using that ts by simp
  show ?thesis
  proof (rule store_okI)
    fix i q assume m: "map_of (tasks ?w') i = Some q"
    show "q < length (heap ?w')"
    proof (cases "i = tid")
      case True
      with m new h show ?thesis by simp
    next
      case False
      from old [OF False m] h show ?thesis by simp
    qed
  next
    fix i j q assume i: "map_of (tasks ?w') i = Some q" and j: "map_of (tasks ?w') j = Some q"
    show "i = j"
    proof (cases "i = tid")
      case True
      with i new have q: "q = ?n" by simp
      show ?thesis
      proof (cases "j = tid")
        case True
        with \<open>i = tid\<close> show ?thesis by simp
      next
        case False
        from old [OF False j] q show ?thesis by simp
      qed
    next
      case False
      note itid = this
      show ?thesis
      proof (cases "j = tid")
        case True
        with j new have "q = ?n" by simp
        with old [OF itid i] show ?thesis by simp
      next
        case False
        with itid i j ts ok show ?thesis by (simp add: store_ok_inj)
      qed
    qed
  next
    fix q assume "holds (sequencer ?w') q"
    with sq ok have "q < ?n" by (simp add: store_ok_holds)
    with h show "q < length (heap ?w')" by simp
  next
    fix q assume q: "q < length (heap ?w')" and r: "Status (heap ?w' ! q) = ''running''"
    have "q \<noteq> ?n"
    proof
      assume "q = ?n"
      with h have "heap ?w' ! q = t" by simp
      with r t show False by simp
    qed
    with q h have ql: "q < ?n" by simp
    with h r have "Status (heap w ! q) = ''running''" by (simp add: nth_append)
    with ok ql sq show "holds (sequencer ?w') q" by (simp add: store_ok_running)
  qed
qed

lemma store_ok_Send:
  assumes "store_ok w"
  shows "store_ok (Send tid w)"
  by (rule store_ok_cong [OF assms]) (simp_all add: Send_def)

lemma Kill_fields:
  assumes "Kill c kerr prefix w = Inr w'"
  shows "heap w' = heap w \<and> tasks w' = tasks w \<and> sequencer w' = sequencer w"
  using assms by (auto simp: Kill_def split: option.splits)

lemma store_ok_Kill:
  assumes "store_ok w" and "Kill c kerr prefix w = Inr w'"
  shows "store_ok w'"
  by (rule store_ok_cong [OF assms(1)]) (simp_all add: Kill_fields [OF assms(2)])

lemma store_ok_removePendingOrder:
  assumes "store_ok w"
  shows "store_ok (removePendingOrder tid w)"
  by (rule store_ok_cong [OF assms]) (simp_all add: removePendingOrder_remove1)

lemma store_ok_Cancel:
  assumes ok: "store_ok w" and c: "Cancel tid now kerr w = Inr (b, w')"
  shows "store_ok w'"
proof (cases "task_at w tid")
  case None
  with ok c show ?thesis by (simp add: Cancel_def)
next
  case (Some pt)
  obtain p t where pt: "pt = (p, t)" by (cases pt)
  define k where "k = (case currentCmd w of
                    None \<Rightarrow> Inr w
                  | Some c \<Rightarrow>
                      if Status t = ''running'' \<and> current w = tid
                      then Kill c kerr (''['' @ tid @ ''] Failed to kill process: '') w
                      else Inr w)"
  from c Some pt obtain w1 where k: "k = Inr w1"
    by (cases k) (simp_all add: Cancel_def k_def)
  have w1: "store_ok w1"
    using ok k by (auto simp: k_def store_ok_Kill split: option.splits if_splits)
  let ?w2 = "w1\<lparr>heap := (heap w1)[p := t\<lparr>Status := ''cancelled'', FinishedAt := now\<rparr>]\<rparr>"
  have "store_ok ?w2"
    by (rule store_ok_write [OF w1, of "t\<lparr>Status := ''cancelled'', FinishedAt := now\<rparr>" _ p])
      simp_all
  then have "store_ok (removePendingOrder tid ?w2)"
    by (rule store_ok_removePendingOrder)
  with w1 Some pt k c show ?thesis
    by (auto simp: Cancel_def k_def [symmetric] split: if_splits)
qed

lemma store_ok_Clear:
  assumes ok: "store_ok w" and c: "Clear kerr w = Inr (n, w')"
  shows "store_ok w'"
proof -
  have f: "tasks w' = []" "heap w' = heap w" "sequencer w' = sequencer w"
    using c by (auto simp: Clear_def Kill_def split: option.splits sum.splits)
  show ?thesis
  proof (rule store_okI)
    fix q assume "holds (sequencer w') q"
    with ok f show "q < length (heap w')" by (simp add: store_ok_holds)
  next
    fix q assume "q < length (heap w')" "Status (heap w' ! q) = ''running''"
    with ok f show "holds (sequencer w') q" by (simp add: store_ok_running)
  qed (simp_all add: f)
qed

lemma store_ok_idle:
  assumes ok: "store_ok w" and s: "\<And>p. \<not> holds (sequencer w) p"
    and h: "heap w' = heap w" and ts: "tasks w' = tasks w"
    and s': "\<And>p. \<not> holds (sequencer w') p"
  shows "store_ok w'"
proof (rule store_okI)
  fix q assume "q < length (heap w')" "Status (heap w' ! q) = ''running''"
  with ok h have "holds (sequencer w) q" by (simp add: store_ok_running)
  with s show "holds (sequencer w') q" by simp
qed (use ok h ts s' in \<open>simp_all add: store_ok_ptr store_ok_inj\<close>)

lemma store_ok_Recv:
  assumes ok: "store_ok w"
  shows "store_ok (step EvRecv w)"
proof (cases "sequencer w")
  case Idle
  show ?thesis
  proof (cases "pending w")
    case Nil
    with Idle ok show ?thesis by simp
  next
    case (Cons tid rest)
    with Idle have e: "step EvRecv w = w\<lparr>pending := rest, sequencer := Dequeued tid\<rparr>"
      by simp
    show ?thesis
      unfolding e by (rule store_ok_idle [OF ok]) (simp_all add: Idle)
  qed
qed (use ok in simp_all)

lemma task_at_SomeD: "task_at w tid = Some (p, t) \<Longrightarrow> p < length (heap w) \<and> t = heap w ! p"
  by (auto simp: task_at_def split: option.splits if_splits)

lemma process_begin_fields:
  assumes "task_at w tid = Some (p, t)"
  shows "heap (process_begin tid now w) = (heap w)[p := t\<lparr>Status := ''running'', StartedAt := now\<rparr>] \<and>
         tasks (process_begin tid now w) = tasks w \<and>
         holds (sequencer (process_begin tid now w)) p"
  using assms by (simp add: process_begin_def Let_def removePendingOrder_remove1)

lemma store_ok_begin:
  assumes ok: "store_ok w" and s: "sequencer w = Dequeued tid"
  shows "store_ok (process_begin tid now w)"
proof (cases "task_at w tid")
  case None
  then have e: "process_begin tid now w = w\<lparr>sequencer := Idle\<rparr>"
    by (simp add: process_begin_def)
  show ?thesis
    unfolding e by (rule store_ok_idle [OF ok]) (simp_all add: s)
next
  case (Some pt)
  obtain p t where pt: "pt = (p, t)" by (cases pt)
  let ?w' = "process_begin tid now w"
  from Some pt have at: "task_at w tid = Some (p, t)" by simp
  from task_at_SomeD [OF at] have p: "p < length (heap w)" by simp
  from process_begin_fields [OF at, of now]
  have h: "heap ?w' = (heap w)[p := t\<lparr>Status := ''running'', StartedAt := now\<rparr>]"
    and ts: "tasks ?w' = tasks w" and sq: "holds (sequencer ?w') p"
    by simp_all
  show ?thesis
  proof (rule store_okI)
    fix i q assume "map_of (tasks ?w') i = Some q"
    with ok ts h show "q < length (heap ?w')" by (simp add: store_ok_ptr)
  next
    fix i j q assume "map_of (tasks ?w') i = Some q" "map_of (tasks ?w') j = Some q"
    with ok ts show "i = j" by (simp add: store_ok_inj)
  next
    fix q assume "holds (sequencer ?w') q"
    with sq have "q = p" by (simp add: holds_same)
    with p h show "q < length (heap ?w')" by simp
  next
    fix q assume q: "q < length (heap ?w')" and r: "Status (heap ?w' ! q) = ''running''"
    show "holds (sequencer ?w') q"
    proof (cases "q = p")
      case True
      with sq show ?thesis by simp
    next
      case False
      with h r q have "q < length (heap w)" "Status (heap w ! q) = ''running''" by simp_all
      with ok have "holds (sequencer w) q" by (simp add: store_ok_running)
      with s show ?thesis by simp
    qed
  qed
qed

text \<open>A step of the sequencer that keeps the heap, the map and the record it holds.\<close>

lemma store_ok_move:
  assumes ok: "store_ok w" and h: "heap w' = heap w" and ts: "tasks w' = tasks w"
    and s: "\<And>q. holds (sequencer w') q = holds (sequencer w) q"
  shows "store_ok w'"
proof (rule store_okI)
  fix i q assume "map_of (tasks w') i = Some q"
  with ok h ts show "q < length (heap w')" by (simp add: store_ok_ptr)
next
  fix i j q assume "map_of (tasks w') i = Some q" "map_of (tasks w') j = Some q"
  with ok ts show "i = j" by (simp add: store_ok_inj)
next
  fix q assume "holds (sequencer w') q"
  with ok h s show "q < length (heap w')" by (simp add: store_ok_holds)
next
  fix q assume "q < length (heap w')" "Status (heap w' ! q) = ''running''"
  with ok h s show "holds (sequencer w') q" by (simp add: store_ok_running)
qed

lemma store_ok_attach:
  assumes ok: "store_ok w" and s: "sequencer w = Started tid p c"
  shows "store_ok (process_attach tid p c w)"
  by (rule store_ok_move [OF ok]) (simp_all add: process_attach_def s)

lemma store_ok_spawn:
  assumes ok: "store_ok w" and s: "sequencer w = Attached tid p c"
  shows "store_ok (process_spawn tid p c pid w)"
  by (rule store_ok_move [OF ok]) (simp_all add: process_spawn_def s)

lemma process_end_fields:
  "length (heap (process_end tid p err output errout parsed now w)) = length (heap w) \<and>
   tasks (process_end tid p err output errout parsed now w) = tasks w \<and>
   sequencer (process_end tid p err output errout parsed now w) = Idle"
  by (simp add: process_end_def Let_def split: option.splits)

lemma process_end_running:
  assumes "q < length (heap w)"
    and "Status (heap (process_end tid p err output errout parsed now w) ! q) = ''running''"
  shows "q \<noteq> p \<and> Status (heap w ! q) = ''running''"
proof (cases "q = p")
  case True
  with assms show ?thesis
    by (simp add: process_end_def Let_def split: option.splits if_splits)
next
  case False
  with assms show ?thesis
    by (simp add: process_end_def Let_def split: option.splits if_splits)
qed

lemma store_ok_end:
  assumes ok: "store_ok w" and s: "holds (sequencer w) p"
  shows "store_ok (process_end tid p err output errout parsed now w)"
proof -
  let ?w' = "process_end tid p err output errout parsed now w"
  note f = process_end_fields [of tid p err _ errout parsed now w]
  have none: "\<not> (q < length (heap ?w') \<and> Status (heap ?w' ! q) = ''running'')" for q
  proof
    assume a: "q < length (heap ?w') \<and> Status (heap ?w' ! q) = ''running''"
    with f have q: "q < length (heap w)" by simp
    from process_end_running [OF q] a have "q \<noteq> p" "Status (heap w ! q) = ''running''"
      by blast+
    with ok q have "holds (sequencer w) q" by (simp add: store_ok_running)
    with s \<open>q \<noteq> p\<close> show False by (simp add: holds_same)
  qed
  show ?thesis
  proof (rule store_okI)
    fix i q assume "map_of (tasks ?w') i = Some q"
    with ok f show "q < length (heap ?w')" by (simp add: store_ok_ptr)
  next
    fix i j q assume "map_of (tasks ?w') i = Some q" "map_of (tasks ?w') j = Some q"
    with ok f show "i = j" by (simp add: store_ok_inj)
  next
    fix q assume "holds (sequencer ?w') q"
    with f show "q < length (heap ?w')" by simp
  next
    fix q assume "q < length (heap ?w')" "Status (heap ?w' ! q) = ''running''"
    with none show "holds (sequencer ?w') q" by blast
  qed
qed

lemma store_ok_step: "store_ok w \<Longrightarrow> store_ok (step e w)"
proof (cases e)
  case (EvSubmit req key tid now)
  assume "store_ok w"
  with EvSubmit show ?thesis by (simp add: store_ok_Submit)
next
  case (EvSend tid)
  assume "store_ok w"
  with EvSend show ?thesis by (simp add: store_ok_Send)
next
  case (EvCancel tid now kerr)
  assume "store_ok w"
  with EvCancel show ?thesis
    by (cases "Cancel tid now kerr w") (auto simp: store_ok_Cancel)
next
  case (EvClear kerr)
  assume "store_ok w"
  with EvClear show ?thesis
    by (cases "Clear kerr w") (auto simp: store_ok_Clear)
next
  case EvRecv
  assume "store_ok w"
  with EvRecv show ?thesis by (simp only: store_ok_Recv)
next
  case (EvBegin now)
  assume "store_ok w"
  with EvBegin show ?thesis by (cases "sequencer w") (simp_all add: store_ok_begin)
next
  case EvAttach
  assume "store_ok w"
  with EvAttach show ?thesis by (cases "sequencer w") (simp_all add: store_ok_attach)
next
  case (EvSpawn pid)
  assume "store_ok w"
  with EvSpawn show ?thesis by (cases "sequencer w") (simp_all add: store_ok_spawn)
next
  case (EvExit err out errout parsed now)
  assume "store_ok w"
  with EvExit show ?thesis by (cases "sequencer w") (simp_all add: store_ok_end)
qed

lemma store_ok_exec: "store_ok w \<Longrightarrow> store_ok (exec w es)"
  by (induction es arbitrary: w) (simp_all add: store_ok_step)

lemma is_running_holds:
  assumes "store_ok w" and "is_running w tid"
  shows "\<exists>p. map_of (tasks w) tid = Some p \<and> holds (sequencer w) p"
  using assms unfolding store_ok_def is_running_def Get_def task_at_def
  by (auto split: option.splits if_splits)

text \<open>
  C1. In every state that a sequence of steps of \<open>Submit\<close>, the channel send, \<open>Cancel\<close>,
  \<open>Clear\<close> and the sequencer reaches from a new queue, at most one ID of the task store
  has a job with status running.
\<close>

theorem at_most_one_running:
  assumes "is_running (exec (NewQueue path) es) i" and "is_running (exec (NewQueue path) es) j"
  shows "i = j"
proof -
  let ?w = "exec (NewQueue path) es"
  have ok: "store_ok ?w"
    by (rule store_ok_exec) (rule store_ok_NewQueue)
  from is_running_holds [OF ok assms(1)] obtain p
    where p: "map_of (tasks ?w) i = Some p" "holds (sequencer ?w) p" by blast
  from is_running_holds [OF ok assms(2)] obtain q
    where q: "map_of (tasks ?w) j = Some q" "holds (sequencer ?w) q" by blast
  from p q have "p = q" by (simp add: holds_same)
  with ok p q show ?thesis unfolding store_ok_def by blast
qed

lemma exec_append: "exec w (es @ es') = exec (exec w es) es'"
  by (induction es arbitrary: w) simp_all

lemma world_A_running_exec:
  "world_A_running =
     exec (NewQueue ''./worker.py'') (abc_submitted @ [EvRecv, EvBegin 4, EvAttach, EvSpawn 100])"
proof -
  have "abc_submitted @ [EvRecv, EvBegin 4, EvAttach, EvSpawn 100] =
      (abc_submitted @ [EvRecv]) @ [EvBegin 4, EvAttach, EvSpawn 100]"
    by simp
  then show ?thesis
    by (simp add: world_A_running_def world_A_attached_def world_A_started_def
          world_A_dequeued_def exec_append del: step.simps)
qed

theorem at_most_one_running_witness:
  "is_running (exec (NewQueue ''./worker.py'') (abc_submitted @ [EvRecv, EvBegin 4, EvAttach, EvSpawn 100]))
     ''0a'' \<and>
   \<not> is_running (exec (NewQueue ''./worker.py'') (abc_submitted @ [EvRecv, EvBegin 4, EvAttach, EvSpawn 100]))
     ''0b'' \<and>
   \<not> is_running (exec (NewQueue ''./worker.py'') (abc_submitted @ [EvRecv, EvBegin 4, EvAttach, EvSpawn 100]))
     ''0c''"
proof -
  let ?w = "exec (NewQueue ''./worker.py'') (abc_submitted @ [EvRecv, EvBegin 4, EvAttach, EvSpawn 100])"
  have "is_running world_A_running ''0a''"
    by (simp add: world_A_running_eq is_running_def Get_def task_at_def sample_task_def)
  then have a: "is_running ?w ''0a''"
    by (simp only: world_A_running_exec)
  have "\<not> is_running ?w ''0b''"
  proof
    assume "is_running ?w ''0b''"
    from at_most_one_running [OF a this] show False by simp
  qed
  moreover have "\<not> is_running ?w ''0c''"
  proof
    assume "is_running ?w ''0c''"
    from at_most_one_running [OF a this] show False by simp
  qed
  ultimately show ?thesis using a by blast
qed

section \<open>A job cancelled while it waits\<close>

text \<open>
  C2 asks that the sequencer skip a job that was cancelled while it waited. \<open>process\<close>
  looks only for a nil pointer before it marks the job running. In the sample run B is
  cancelled while A runs; when the sequencer receives B it sets the status of B to
  running, records the start time 7, makes B the current job and attaches a worker
  command that carries B's descriptor, and the worker process of B is created.
\<close>

theorem cancelled_while_queued_is_run:
  "Get world_B_dequeued ''0b'' = Some (sample_task ''0b'' ''B'' ''key-b'' ''cancelled'' 2 0 5) \<and>
   sequencer world_B_dequeued = Dequeued ''0b'' \<and>
   Get world_B_spawned ''0b'' = Some (sample_task ''0b'' ''B'' ''key-b'' ''running'' 2 7 5) \<and>
   current world_B_spawned = ''0b'' \<and>
   currentCmd world_B_spawned =
     Some \<lparr>argv = [''python3'', ''./worker.py''],
           stdin = worker_input (Request (sample_task ''0b'' ''B'' ''key-b'' ''running'' 2 7 5))
                     ''key-b'',
           Process = Some 101\<rparr>"
  by code_simp

text \<open>
  C3 asks that no terminal status change again. In the same run the status of B goes
  from cancelled to running when the sequencer starts it, and from there to completed
  when its worker reports success.
\<close>

theorem cancelled_status_reverts:
  "map_option Status (Get world_B_dequeued ''0b'') = Some ''cancelled'' \<and>
   map_option Status (Get (step (EvBegin 7) world_B_dequeued) ''0b'') = Some ''running'' \<and>
   map_option Status
     (Get (step (EvExit None (sample_output True) [] (Some (sample_envelope True)) 8) world_B_spawned)
        ''0b'') = Some ''completed''"
  by code_simp

section \<open>Credentials\<close>

lemma scrub_task_simps [simp]:
  "scrub_task (scrub_task t) = scrub_task t"
  "Status (scrub_task t) = Status t"
  "Request (scrub_task t) = Request t"
  "Success (scrub_task t) = Success t"
  "scrub_task (t\<lparr>Status := s\<rparr>) = (scrub_task t)\<lparr>Status := s\<rparr>"
  "scrub_task (t\<lparr>FinishedAt := n\<rparr>) = (scrub_task t)\<lparr>FinishedAt := n\<rparr>"
  "scrub_task (t\<lparr>StartedAt := n\<rparr>) = (scrub_task t)\<lparr>StartedAt := n\<rparr>"
  "scrub_task (t\<lparr>Logs := l\<rparr>) = (scrub_task t)\<lparr>Logs := l\<rparr>"
  "scrub_task (t\<lparr>Error := e\<rparr>) = (scrub_task t)\<lparr>Error := e\<rparr>"
  "scrub_task (t\<lparr>Success := b\<rparr>) = (scrub_task t)\<lparr>Success := b\<rparr>"
  "scrub_task (t\<lparr>Result := r\<rparr>) = (scrub_task t)\<lparr>Result := r\<rparr>"
  "scrub_task (t\<lparr>Steps := j\<rparr>) = (scrub_task t)\<lparr>Steps := j\<rparr>"
  by (simp_all add: scrub_task_def)

lemma scrub_cmd_simps [simp]:
  "scrub_cmd (scrub_cmd c) = scrub_cmd c"
  "argv (scrub_cmd c) = argv c"
  "Process (scrub_cmd c) = Process c"
  "scrub_cmd (c\<lparr>Process := x\<rparr>) = (scrub_cmd c)\<lparr>Process := x\<rparr>"
  "scrub_cmd \<lparr>argv = a, stdin = i, Process = x\<rparr> = \<lparr>argv = a, stdin = JNull, Process = x\<rparr>"
  by (simp_all add: scrub_cmd_def)

lemma scrub_fields [simp]:
  "tasks (scrub w) = tasks w" "pending (scrub w) = pending w"
  "pendingOrder (scrub w) = pendingOrder w" "current (scrub w) = current w"
  "currentCmd (scrub w) = map_option scrub_cmd (currentCmd w)"
  "workerPath (scrub w) = workerPath w" "heap (scrub w) = map scrub_task (heap w)"
  "senders (scrub w) = senders w" "sequencer (scrub w) = scrub_pc (sequencer w)"
  "killed (scrub w) = map scrub_cmd (killed w)" "logged (scrub w) = logged w"
  by (simp_all add: scrub_def)

lemma scrub_idem [simp]:
  "scrub_pc (scrub_pc s) = scrub_pc s"
  "map_option scrub_cmd (map_option scrub_cmd x) = map_option scrub_cmd x"
  "map scrub_task (map scrub_task ts) = map scrub_task ts"
  "map scrub_cmd (map scrub_cmd cs) = map scrub_cmd cs"
  by (cases s, simp_all, cases x, simp_all)

lemma scrub_comp [simp]:
  "scrub_task \<circ> scrub_task = scrub_task" "scrub_cmd \<circ> scrub_cmd = scrub_cmd"
  by (simp_all add: fun_eq_iff)

lemma scrub_scrub [simp]: "scrub (scrub w) = scrub w"
  by (simp add: scrub_def)

lemma scrub_eqI:
  assumes "tasks w = tasks w'" "pending w = pending w'" "pendingOrder w = pendingOrder w'"
    "current w = current w'" "map_option scrub_cmd (currentCmd w) = map_option scrub_cmd (currentCmd w')"
    "workerPath w = workerPath w'" "map scrub_task (heap w) = map scrub_task (heap w')"
    "senders w = senders w'" "scrub_pc (sequencer w) = scrub_pc (sequencer w')"
    "map scrub_cmd (killed w) = map scrub_cmd (killed w')" "logged w = logged w'"
  shows "scrub w = scrub w'"
  using assms by (cases w, cases w') (simp add: scrub_def)

lemma task_at_scrub:
  "task_at (scrub w) tid = map_option (\<lambda>(p, t). (p, scrub_task t)) (task_at w tid)"
  by (simp add: task_at_def split: option.splits)

lemma MarshalTask_scrub [simp]: "MarshalTask (scrub_task t) = MarshalTask t"
  by (simp add: MarshalTask_def scrub_task_def)

lemma Get_scrub: "Get (scrub w) tid = map_option scrub_task (Get w tid)"
  by (cases "task_at w tid") (auto simp: Get_def task_at_scrub)

lemma task_response_scrub: "task_response (scrub w) tid = task_response w tid"
  by (cases "Get w tid") (simp_all add: task_response_def Get_scrub)

lemma All_scrub: "All (scrub w) = map (\<lambda>(tid, t). (tid, scrub_task t)) (All w)"
proof -
  have "List.map_filter (\<lambda>(tid, p). map_option (\<lambda>pt. (tid, snd pt)) (task_at (scrub w) tid)) xs =
      map (\<lambda>(tid, t). (tid, scrub_task t))
        (List.map_filter (\<lambda>(tid, p). map_option (\<lambda>pt. (tid, snd pt)) (task_at w tid)) xs)"
    for xs :: "(string \<times> nat) list"
    by (induction xs) (auto simp: List.map_filter_simps task_at_scrub split: option.splits)
  then show ?thesis by (simp add: All_def)
qed

lemma queue_response_scrub: "queue_response (scrub w) = queue_response w"
  by (simp add: queue_response_def All_scrub case_prod_unfold)

lemma scrub_Submit:
  "scrub (snd (Submit req key tid now w)) =
   scrub (snd (Submit (req\<lparr>APIKey := []\<rparr>) [] tid now (scrub w)))"
  by (rule scrub_eqI) (simp_all add: Submit_def Let_def scrub_task_def)

lemma scrub_Send: "scrub (Send tid w) = scrub (Send tid (scrub w))"
  by (rule scrub_eqI) (simp_all add: Send_def)

lemma scrub_Kill:
  "Kill (scrub_cmd c) kerr prefix (scrub w) =
     (case Kill c kerr prefix w of Inl e \<Rightarrow> Inl e | Inr w' \<Rightarrow> Inr (scrub w'))"
  by (simp add: Kill_def scrub_def split: option.splits)

lemma scrub_Cancel:
  "scrub (step (EvCancel tid now kerr) w) = scrub (step (EvCancel tid now kerr) (scrub w))"
proof (cases "task_at w tid")
  case None
  then have "task_at (scrub w) tid = None" by (simp add: task_at_scrub)
  with None show ?thesis by (simp add: Cancel_def)
next
  case (Some pt)
  obtain p t where pt: "pt = (p, t)" by (cases pt)
  with Some have s: "task_at (scrub w) tid = Some (p, scrub_task t)"
    by (simp add: task_at_scrub)
  define k where "k = (case currentCmd w of
                    None \<Rightarrow> Inr w
                  | Some c \<Rightarrow>
                      if Status t = ''running'' \<and> current w = tid
                      then Kill c kerr (''['' @ tid @ ''] Failed to kill process: '') w
                      else Inr w)"
  define k' where "k' = (case currentCmd (scrub w) of
                    None \<Rightarrow> Inr (scrub w)
                  | Some c \<Rightarrow>
                      if Status (scrub_task t) = ''running'' \<and> current (scrub w) = tid
                      then Kill c kerr (''['' @ tid @ ''] Failed to kill process: '') (scrub w)
                      else Inr (scrub w))"
  have kk: "k' = (case k of Inl e \<Rightarrow> Inl e | Inr w1 \<Rightarrow> Inr (scrub w1))"
    by (cases "currentCmd w") (simp_all add: k_def k'_def scrub_Kill)
  have c: "Cancel tid now kerr w =
      (case k of Inl e \<Rightarrow> Inl e
       | Inr w1 \<Rightarrow>
           if Status t = ''queued'' \<or> Status t = ''running''
           then Inr (True, removePendingOrder tid
                   (w1\<lparr>heap := (heap w1)[p := t\<lparr>Status := ''cancelled'', FinishedAt := now\<rparr>]\<rparr>))
           else Inr (False, w1))"
    unfolding Cancel_def k_def by (simp only: Some pt option.case prod.case)
  have c': "Cancel tid now kerr (scrub w) =
      (case k' of Inl e \<Rightarrow> Inl e
       | Inr w1 \<Rightarrow>
           if Status (scrub_task t) = ''queued'' \<or> Status (scrub_task t) = ''running''
           then Inr (True, removePendingOrder tid
                   (w1\<lparr>heap := (heap w1)[p := (scrub_task t)\<lparr>Status := ''cancelled'',
                                                              FinishedAt := now\<rparr>]\<rparr>))
           else Inr (False, w1))"
    unfolding Cancel_def k'_def by (simp only: s option.case prod.case)
  show ?thesis
  proof (cases k)
    case (Inl e)
    with kk c c' show ?thesis by simp
  next
    case (Inr w1)
    with kk have "k' = Inr (scrub w1)" by simp
    with Inr c c' show ?thesis
      by (cases "Status t = ''queued'' \<or> Status t = ''running''")
        (simp_all, intro scrub_eqI, simp_all add: removePendingOrder_remove1 map_update)
  qed
qed

lemma scrub_Clear:
  "scrub (step (EvClear kerr) w) = scrub (step (EvClear kerr) (scrub w))"
proof -
  define k where "k = (case currentCmd w of None \<Rightarrow> Inr w
                        | Some c \<Rightarrow> Kill c kerr ''Failed to kill current process: '' w)"
  define k' where "k' = (case currentCmd (scrub w) of None \<Rightarrow> Inr (scrub w)
                        | Some c \<Rightarrow> Kill c kerr ''Failed to kill current process: '' (scrub w))"
  have kk: "k' = (case k of Inl e \<Rightarrow> Inl e | Inr w1 \<Rightarrow> Inr (scrub w1))"
    by (cases "currentCmd w") (simp_all add: k_def k'_def scrub_Kill)
  have c: "Clear kerr w =
      (case k of Inl e \<Rightarrow> Inl e
       | Inr w1 \<Rightarrow>
           Inr (length (tasks w1),
                w1\<lparr>tasks := [], current := [], pendingOrder := [], pending := []\<rparr>))"
    by (simp add: Clear_def k_def)
  have c': "Clear kerr (scrub w) =
      (case k' of Inl e \<Rightarrow> Inl e
       | Inr w1 \<Rightarrow>
           Inr (length (tasks w1),
                w1\<lparr>tasks := [], current := [], pendingOrder := [], pending := []\<rparr>))"
    by (simp add: Clear_def k'_def)
  show ?thesis
  proof (cases k)
    case (Inl e)
    with kk c c' show ?thesis by simp
  next
    case (Inr w1)
    with kk have "k' = Inr (scrub w1)" by simp
    with Inr c c' show ?thesis
      by simp
  qed
qed

lemma scrub_Recv: "scrub (step EvRecv w) = scrub (step EvRecv (scrub w))"
  by (cases "sequencer w"; cases "pending w") (simp_all add: scrub_def)

lemma scrub_begin:
  "scrub (process_begin tid now w) = scrub (process_begin tid now (scrub w))"
proof (cases "task_at w tid")
  case None
  then have "task_at (scrub w) tid = None" by (simp add: task_at_scrub)
  with None show ?thesis by (simp add: process_begin_def scrub_def)
next
  case (Some pt)
  obtain p t where pt: "pt = (p, t)" by (cases pt)
  with Some have s: "task_at (scrub w) tid = Some (p, scrub_task t)"
    by (simp add: task_at_scrub)
  from Some pt s show ?thesis
    by (intro scrub_eqI)
      (simp_all add: process_begin_def removePendingOrder_remove1 Let_def map_update)
qed

lemma scrub_attach:
  "scrub (process_attach tid p c w) = scrub (process_attach tid p (scrub_cmd c) (scrub w))"
  by (rule scrub_eqI) (simp_all add: process_attach_def)

lemma scrub_spawn:
  "scrub (process_spawn tid p c pid w) =
   scrub (process_spawn tid p (scrub_cmd c) pid (scrub w))"
  by (rule scrub_eqI) (simp_all add: process_spawn_def option.map_comp comp_def)

lemma scrub_end:
  assumes "p < length (heap w)"
  shows "scrub (process_end tid p err output errout parsed now w) =
         scrub (process_end tid p err output errout parsed now (scrub w))"
  using assms
  by (intro scrub_eqI)
    (simp_all add: process_end_def Let_def map_update split: option.splits)

lemma scrub_step:
  assumes ok: "store_ok w"
  shows "scrub (step e w) = scrub (step (scrub_ev e) (scrub w))"
proof (cases e)
  case (EvSubmit req key tid now)
  with scrub_Submit [of req key tid now w] show ?thesis by simp
next
  case (EvSend tid)
  with scrub_Send [of tid w] show ?thesis by simp
next
  case (EvCancel tid now kerr)
  with scrub_Cancel [of tid now kerr w] show ?thesis by (simp only: scrub_ev.simps)
next
  case (EvClear kerr)
  with scrub_Clear [of kerr w] show ?thesis by (simp only: scrub_ev.simps)
next
  case EvRecv
  with scrub_Recv [of w] show ?thesis by (simp only: scrub_ev.simps)
next
  case (EvBegin now)
  show ?thesis
  proof (cases "sequencer w")
    case (Dequeued tid)
    with EvBegin scrub_begin [of tid now w] show ?thesis by simp
  qed (simp_all add: EvBegin)
next
  case EvAttach
  show ?thesis
  proof (cases "sequencer w")
    case (Started tid p c)
    with EvAttach scrub_attach [of tid p c w] show ?thesis by simp
  qed (simp_all add: EvAttach)
next
  case (EvSpawn pid)
  show ?thesis
  proof (cases "sequencer w")
    case (Attached tid p c)
    with EvSpawn scrub_spawn [of tid p c pid w] show ?thesis by simp
  qed (simp_all add: EvSpawn)
next
  case (EvExit err out errout parsed now)
  show ?thesis
  proof (cases "sequencer w")
    case (Attached tid p c)
    with ok have "p < length (heap w)" by (simp add: store_ok_holds)
    from scrub_end [OF this, of tid err out errout parsed now] Attached EvExit
    show ?thesis by auto
  next
    case (Waiting tid p c)
    with ok have "p < length (heap w)" by (simp add: store_ok_holds)
    from scrub_end [OF this, of tid err out errout parsed now] Waiting EvExit
    show ?thesis by simp
  qed (simp_all add: EvExit)
qed

lemma scrub_ev_idem: "scrub_ev (scrub_ev e) = scrub_ev e"
  by (cases e) simp_all

lemma scrub_exec:
  assumes "store_ok w" and "store_ok w'" and "scrub w = scrub w'"
  shows "scrub (exec w es) = scrub (exec w' (map scrub_ev es))"
  using assms
proof (induction es arbitrary: w w')
  case Nil
  then show ?case by simp
next
  case (Cons e es)
  have "scrub (step e w) = scrub (step (scrub_ev e) (scrub w))"
    by (rule scrub_step [OF Cons.prems(1)])
  also have "\<dots> = scrub (step (scrub_ev e) (scrub w'))"
    by (simp only: Cons.prems(3))
  also have "\<dots> = scrub (step (scrub_ev e) w')"
    using scrub_step [OF Cons.prems(2), of "scrub_ev e"] by (simp only: scrub_ev_idem)
  finally have eq: "scrub (step e w) = scrub (step (scrub_ev e) w')" .
  have "store_ok (step e w)" "store_ok (step (scrub_ev e) w')"
    using Cons.prems by (simp_all only: store_ok_step)
  from Cons.IH [OF this eq] show ?case by simp
qed

lemma scrub_run:
  "scrub (exec (NewQueue path) es) = scrub (exec (NewQueue path) (map scrub_ev es))"
  by (rule scrub_exec) (simp_all add: store_ok_NewQueue)

lemma seen_through_scrub:
  assumes "scrub w = scrub w'"
  shows "task_response w tid = task_response w' tid"
    and "queue_response w = queue_response w'"
    and "map_option argv (currentCmd w) = map_option argv (currentCmd w')"
    and "map argv (killed w) = map argv (killed w')"
    and "logged w = logged w'"
proof -
  show "task_response w tid = task_response w' tid"
    using task_response_scrub [of w tid] task_response_scrub [of w' tid] assms by simp
  show "queue_response w = queue_response w'"
    using queue_response_scrub [of w] queue_response_scrub [of w'] assms by simp
  have c: "map_option argv (currentCmd v) = map_option argv (currentCmd (scrub v))" for v
    by (cases "currentCmd v") simp_all
  from c [of w] c [of w'] assms
  show "map_option argv (currentCmd w) = map_option argv (currentCmd w')" by simp
  have k: "map argv (killed v) = map argv (killed (scrub v))" for v
    by (simp add: comp_def)
  from k [of w] k [of w'] assms show "map argv (killed w) = map argv (killed w')" by simp
  from assms have "logged (scrub w) = logged (scrub w')" by simp
  then show "logged w = logged w'" by simp
qed

text \<open>
  C8. The serialization of a record does not read its credential. Along any run from a
  new queue, the body of \<open>GET /task/{id}\<close>, the task list of \<open>GET /queue\<close>, the arguments
  of the attached and of the killed worker commands and the log are the same as in the
  run whose \<open>Submit\<close> calls carry empty credentials, for the same requests, clock and
  worker outcomes. The command \<open>process\<close> builds for a job has the arguments \<open>python3\<close>
  and the worker path, and the job's credential under \<open>api_key\<close> in the descriptor it
  gets as standard input.
\<close>

theorem credential_only_on_stdin:
  "MarshalTask (t\<lparr>apiKey := key\<rparr>) = MarshalTask t \<and>
   task_response (exec (NewQueue path) es) tid =
     task_response (exec (NewQueue path) (map scrub_ev es)) tid \<and>
   queue_response (exec (NewQueue path) es) =
     queue_response (exec (NewQueue path) (map scrub_ev es)) \<and>
   map_option argv (currentCmd (exec (NewQueue path) es)) =
     map_option argv (currentCmd (exec (NewQueue path) (map scrub_ev es))) \<and>
   map argv (killed (exec (NewQueue path) es)) =
     map argv (killed (exec (NewQueue path) (map scrub_ev es))) \<and>
   logged (exec (NewQueue path) es) = logged (exec (NewQueue path) (map scrub_ev es)) \<and>
   (sequencer w = Dequeued tid \<and> task_at w tid = Some (p, t) \<longrightarrow>
      sequencer (step (EvBegin now) w) =
        Started tid p
          \<lparr>argv = [''python3'', workerPath w],
           stdin = JObject [(''api_key'', JString (apiKey t)),
                            (''app'', JString (App (Request t))),
                            (''goal'', JString (Goal (Request t))),
                            (''max_steps'', JInt (MaxSteps (Request t))),
                            (''model'', JString (Model (Request t))),
                            (''provider'', JString (Provider (Request t))),
                            (''reasoning'', JBool (Reasoning (Request t))),
                            (''vision'', JBool (Vision (Request t)))],
           Process = None\<rparr>)"
proof -
  have m: "MarshalTask (t\<lparr>apiKey := key\<rparr>) = MarshalTask t"
    by (simp add: MarshalTask_def)
  note s = seen_through_scrub [OF scrub_run [of path es]]
  have b: "sequencer (step (EvBegin now) w) =
        Started tid p
          \<lparr>argv = [''python3'', workerPath w],
           stdin = JObject [(''api_key'', JString (apiKey t)),
                            (''app'', JString (App (Request t))),
                            (''goal'', JString (Goal (Request t))),
                            (''max_steps'', JInt (MaxSteps (Request t))),
                            (''model'', JString (Model (Request t))),
                            (''provider'', JString (Provider (Request t))),
                            (''reasoning'', JBool (Reasoning (Request t))),
                            (''vision'', JBool (Vision (Request t)))],
           Process = None\<rparr>"
    if "sequencer w = Dequeued tid" "task_at w tid = Some (p, t)"
    using that
    by (simp add: process_begin_def Let_def removePendingOrder_remove1 worker_input_def)
  from m s b show ?thesis by blast
qed

theorem credential_only_on_stdin_witness:
  "sequencer world_A_dequeued = Dequeued ''0a'' \<and>
   task_at world_A_dequeued ''0a'' = Some (0, sample_task ''0a'' ''A'' ''key-a'' ''queued'' 1 0 0) \<and>
   sequencer (step (EvBegin 4) world_A_dequeued) = Started ''0a'' 0 sample_cmd_new \<and>
   stdin sample_cmd_new =
     JObject [(''api_key'', JString ''key-a''), (''app'', JString []), (''goal'', JString ''A''),
              (''max_steps'', JInt 30), (''model'', JString ''gemini-2.0-flash''),
              (''provider'', JString ''Google''), (''reasoning'', JBool False),
              (''vision'', JBool False)] \<and>
   argv sample_cmd_new = [''python3'', ''./worker.py''] \<and>
   map scrub_ev abc_submitted \<noteq> abc_submitted \<and>
   queue_response (exec (NewQueue ''./worker.py'') abc_submitted) =
     queue_response (exec (NewQueue ''./worker.py'') (map scrub_ev abc_submitted))"
proof -
  have h: "sequencer world_A_dequeued = Dequeued ''0a''"
    "task_at world_A_dequeued ''0a'' = Some (0, sample_task ''0a'' ''A'' ''key-a'' ''queued'' 1 0 0)"
    by (simp_all add: world_A_dequeued_eq task_at_def)
  note t = credential_only_on_stdin
    [where w = world_A_dequeued and tid = "''0a''" and p = 0 and now = 4
       and t = "sample_task ''0a'' ''A'' ''key-a'' ''queued'' 1 0 0"
       and path = "''./worker.py''" and es = abc_submitted]
  from t h have b: "sequencer (step (EvBegin 4) world_A_dequeued) = Started ''0a'' 0 sample_cmd_new"
    by (simp add: world_A_dequeued_eq sample_task_def sample_cmd_new_def del: step.simps)
  from t have q: "queue_response (exec (NewQueue ''./worker.py'') abc_submitted) =
     queue_response (exec (NewQueue ''./worker.py'') (map scrub_ev abc_submitted))"
    by blast
  have d: "map scrub_ev abc_submitted \<noteq> abc_submitted"
    by (simp add: abc_submitted_def)
  have e: "stdin sample_cmd_new =
     JObject [(''api_key'', JString ''key-a''), (''app'', JString []), (''goal'', JString ''A''),
              (''max_steps'', JInt 30), (''model'', JString ''gemini-2.0-flash''),
              (''provider'', JString ''Google''), (''reasoning'', JBool False),
              (''vision'', JBool False)]"
    "argv sample_cmd_new = [''python3'', ''./worker.py'']"
    by (simp_all add: sample_cmd_new_def)
  from h b q d e show ?thesis by (simp only: simp_thms)
qed

end
